theory Spec2Isabelle
  imports Complex_Main "HOL-Library.Multiset"
begin

section \<open>Cumulative histogram by map, reduce and scan (2.1/A/main.cpp)\<close>

text \<open>
  The program classifies every input value into one of \<open>CANTIDAD_RANGOS\<close> buckets,
  builds a one-hot vector per value (map), adds the vectors (reduce) and computes the
  inclusive prefix sums of the result (scan); once with plain loops
  (\<open>ejecutarSecuencial\<close>) and once through TBB (\<open>ejecutarParalelo\<close>).

  C++ \<open>int\<close> is modelled by \<open>int\<close>. Both backends keep the number of input values in
  an \<open>int\<close> (\<open>int totalElementos = datos.size()\<close>); the model narrows the length of the
  input to 32 bits as the source does (\<open>aInt\<close>), so a run handles at most \<open>INT_MAX\<close>
  rows and no bucket count or prefix sum leaves 32 bits. Undefined behaviour that the
  source can reach (an integer division by zero, a store outside a \<open>std::array\<close>) and
  the exception of an allocation that cannot be made are error values of the model. An
  index is a \<open>nat\<close>: every loop of the source starts at \<open>0\<close> or at the begin of a
  sub-range of \<open>[0, totalElementos)\<close> or \<open>[0, B)\<close> and stops before its end, so no read
  of \<open>datos\<close>, \<open>valoresMapeados\<close> or \<open>histograma\<close> is out of range.
\<close>

subsection \<open>Configuration and errors\<close>

definition CANTIDAD_RANGOS :: nat where
  "CANTIDAD_RANGOS = 4"

datatype error = DivisionPorCero | IndiceFueraDeRango | VectorDemasiadoGrande

text \<open>
  \<^verbatim>\<open>int totalElementos = datos.size();\<close>
  The conversion of a \<open>size_t\<close> to \<open>int\<close> keeps the value modulo \<open>2^32\<close>, read as a
  signed number: a length up to \<open>INT_MAX = 2147483647\<close> is kept, a longer one is not.
\<close>

definition aInt :: "nat \<Rightarrow> int" where
  "aInt n =
     (let m = int n mod 4294967296
      in if m \<le> 2147483647 then m else m - 4294967296)"

text \<open>The \<open>/\<close> of C++ on \<open>int\<close>: it truncates towards zero, and dividing by zero is
  undefined.\<close>

definition dividir :: "int \<Rightarrow> int \<Rightarrow> error + int" where
  "dividir a b =
     (if b = 0 then Inl DivisionPorCero else Inr (sgn a * sgn b * (\<bar>a\<bar> div \<bar>b\<bar>)))"

subsection \<open>The bucket classifier\<close>

text \<open>
  \<^verbatim>\<open>
  int calcularIndiceRango(int valor, int tamanoRango)
  {
      int valorAjustado = (valor > 0) ? (valor - 1) : valor;
      return std::min(valorAjustado / tamanoRango, CANTIDAD_RANGOS - 1);
  }
  \<close>
\<close>

definition calcularIndiceRango :: "int \<Rightarrow> int \<Rightarrow> error + int" where
  "calcularIndiceRango valor tamanoRango =
     (let valorAjustado = (if valor > 0 then valor - 1 else valor)
      in case dividir valorAjustado tamanoRango of
           Inl e \<Rightarrow> Inl e
         | Inr cociente \<Rightarrow> Inr (min cociente (int CANTIDAD_RANGOS - 1)))"

text \<open>The rule as the specification words it: shift a positive value down by one (zero
  stays zero), take the floor of the quotient by the width, clamp to the last bucket.\<close>

definition clasificarSegunSpec :: "int \<Rightarrow> int \<Rightarrow> int \<Rightarrow> int" where
  "clasificarSegunSpec B W x =
     (let x' = (if x > 0 then x - 1 else 0);
          b = \<lfloor>real_of_int x' / real_of_int W\<rfloor>
      in min b (B - 1))"

subsection \<open>Width and displayed bounds of the buckets\<close>

text \<open>
  \<open>main\<close> computes the width as
  \<^verbatim>\<open>std::ceil(static_cast<double>(VALOR_MAXIMO) / CANTIDAD_RANGOS)\<close>
  and \<open>mostrarConfiguracion\<close> prints, for bucket \<open>i\<close>,
  \<^verbatim>\<open>
  int limiteInferior = (i == 0) ? 0 : (valorMaximo - (CANTIDAD_RANGOS - i) * tamanoRango + 1);
  int limiteSuperior = valorMaximo - (CANTIDAD_RANGOS - 1 - i) * tamanoRango;
  \<close>
\<close>

definition TAMANO_RANGO :: "int \<Rightarrow> int" where
  "TAMANO_RANGO valorMaximo = \<lceil>real_of_int valorMaximo / real CANTIDAD_RANGOS\<rceil>"

definition limiteInferior :: "int \<Rightarrow> int \<Rightarrow> int \<Rightarrow> int" where
  "limiteInferior valorMaximo tamanoRango i =
     (if i = 0 then 0 else valorMaximo - (int CANTIDAD_RANGOS - i) * tamanoRango + 1)"

definition limiteSuperior :: "int \<Rightarrow> int \<Rightarrow> int \<Rightarrow> int" where
  "limiteSuperior valorMaximo tamanoRango i =
     valorMaximo - (int CANTIDAD_RANGOS - 1 - i) * tamanoRango"

subsection \<open>Loops and arrays\<close>

text \<open>\<^verbatim>\<open>for (int i = ini; i < fin; ++i) cuerpo\<close> on a state \<open>s\<close>.\<close>

function para :: "nat \<Rightarrow> nat \<Rightarrow> (nat \<Rightarrow> 'a \<Rightarrow> 'a) \<Rightarrow> 'a \<Rightarrow> 'a" where
  "para i fin cuerpo s = (if i < fin then para (Suc i) fin cuerpo (cuerpo i s) else s)"
  by pat_completeness auto
termination
  by (relation "measure (\<lambda>(i, fin, cuerpo, s). fin - i)") auto

text \<open>The same loop when an iteration can fail: the first failure ends the run.\<close>

function paraFalible ::
  "nat \<Rightarrow> nat \<Rightarrow> (nat \<Rightarrow> 'a \<Rightarrow> error + 'a) \<Rightarrow> 'a \<Rightarrow> error + 'a" where
  "paraFalible i fin cuerpo s =
     (if i < fin
      then (case cuerpo i s of
              Inl e \<Rightarrow> Inl e
            | Inr s' \<Rightarrow> paraFalible (Suc i) fin cuerpo s')
      else Inr s)"
  by pat_completeness auto
termination
  by (relation "measure (\<lambda>(i, fin, cuerpo, s). fin - i)") auto

declare para.simps [simp del] paraFalible.simps [simp del]

text \<open>\<^verbatim>\<open>std::array<int, CANTIDAD_RANGOS>{}\<close>: the array of zeros.\<close>

definition ceros :: "int list" where
  "ceros = replicate CANTIDAD_RANGOS 0"

text \<open>The variables of a run: the input vector and the three structures the stages
  produce.\<close>

record estado =
  datos :: "int list"
  valoresMapeados :: "int list list"
  histograma :: "int list"
  histogramaAcumulado :: "int list"

subsection \<open>The bodies of the three stages\<close>

text \<open>
  One iteration of the map loop (the same four lines in both backends):
  \<^verbatim>\<open>
  int indice = calcularIndiceRango(datos[i], tamanoRango);
  std::array<int, CANTIDAD_RANGOS> temp{};
  temp[indice] = 1;
  valoresMapeados[i] = temp;
  \<close>
  The store \<open>temp[indice] = 1\<close> is defined only for \<open>0 \<le> indice < CANTIDAD_RANGOS\<close>.
\<close>

definition cuerpoMapeo :: "int \<Rightarrow> nat \<Rightarrow> estado \<Rightarrow> error + estado" where
  "cuerpoMapeo tamanoRango i s =
     (case calcularIndiceRango (datos s ! i) tamanoRango of
        Inl e \<Rightarrow> Inl e
      | Inr indice \<Rightarrow>
          if 0 \<le> indice \<and> indice < int CANTIDAD_RANGOS
          then (let temp = ceros[nat indice := 1]
                in Inr (s\<lparr>valoresMapeados := (valoresMapeados s)[i := temp]\<rparr>))
          else Inl IndiceFueraDeRango)"

definition mapeoRango :: "int \<Rightarrow> nat \<Rightarrow> nat \<Rightarrow> estado \<Rightarrow> error + estado" where
  "mapeoRango tamanoRango ini fin s = paraFalible ini fin (cuerpoMapeo tamanoRango) s"

text \<open>
  The partial reduction of the parallel backend, on a sub-range and a partial histogram
  passed by value:
  \<^verbatim>\<open>
  for (int i = rango.begin(); i < rango.end(); ++i)
      for (int j = 0; j < CANTIDAD_RANGOS; ++j)
          parcial[j] += valoresMapeados[i][j];
  return parcial;
  \<close>
\<close>

definition reduccionRango :: "int list list \<Rightarrow> nat \<Rightarrow> nat \<Rightarrow> int list \<Rightarrow> int list" where
  "reduccionRango mapeados ini fin parcial =
     para ini fin
       (\<lambda>i parcial. para 0 CANTIDAD_RANGOS
          (\<lambda>j parcial. parcial[j := parcial ! j + mapeados ! i ! j]) parcial)
       parcial"

text \<open>
  The combination of two partial histograms:
  \<^verbatim>\<open>
  std::array<int, CANTIDAD_RANGOS> combinado{};
  for (int i = 0; i < CANTIDAD_RANGOS; ++i) combinado[i] = a[i] + b[i];
  return combinado;
  \<close>
\<close>

definition combinar :: "int list \<Rightarrow> int list \<Rightarrow> int list" where
  "combinar a b =
     para 0 CANTIDAD_RANGOS (\<lambda>i combinado. combinado[i := a ! i + b ! i]) ceros"

text \<open>
  The body of the parallel scan, on a sub-range, a seed and the flag of the final pass:
  \<^verbatim>\<open>
  for (int i = rango.begin(); i < rango.end(); ++i) {
      suma += histograma[i];
      if (esFinal) histogramaAcumulado[i] = suma;
  }
  return suma;
  \<close>
\<close>

definition escaneoRango :: "nat \<Rightarrow> nat \<Rightarrow> int \<Rightarrow> bool \<Rightarrow> estado \<Rightarrow> int \<times> estado" where
  "escaneoRango ini fin suma esFinal s =
     para ini fin
       (\<lambda>i (suma, s).
          let suma = suma + histograma s ! i
          in (suma,
              if esFinal
              then s\<lparr>histogramaAcumulado := (histogramaAcumulado s)[i := suma]\<rparr>
              else s))
       (suma, s)"

subsection \<open>The sequential backend\<close>

text \<open>
  Step 2 of \<open>ejecutarSecuencial\<close>:
  \<^verbatim>\<open>
  std::array<int, CANTIDAD_RANGOS> histograma{};
  for (const auto& mapeado : valoresMapeados)
      for (int j = 0; j < CANTIDAD_RANGOS; ++j)
          histograma[j] += mapeado[j];
  \<close>
\<close>

definition reduccionSecuencial :: "estado \<Rightarrow> estado" where
  "reduccionSecuencial s =
     fold
       (\<lambda>mapeado s. para 0 CANTIDAD_RANGOS
          (\<lambda>j s. s\<lparr>histograma := (histograma s)[j := histograma s ! j + mapeado ! j]\<rparr>) s)
       (valoresMapeados s)
       (s\<lparr>histograma := ceros\<rparr>)"

text \<open>
  Step 3 of \<open>ejecutarSecuencial\<close>:
  \<^verbatim>\<open>
  std::array<int, CANTIDAD_RANGOS> histogramaAcumulado{};
  int acumulador = 0;
  for (int i = 0; i < CANTIDAD_RANGOS; ++i) {
      acumulador += histograma[i];
      histogramaAcumulado[i] = acumulador;
  }
  \<close>
\<close>

definition escaneoSecuencial :: "estado \<Rightarrow> estado" where
  "escaneoSecuencial s =
     snd (para 0 CANTIDAD_RANGOS
            (\<lambda>i (acumulador, s).
               let acumulador = acumulador + histograma s ! i
               in (acumulador,
                   s\<lparr>histogramaAcumulado := (histogramaAcumulado s)[i := acumulador]\<rparr>))
            (0, s\<lparr>histogramaAcumulado := ceros\<rparr>))"

text \<open>
  The variables as the function declares them:
  \<^verbatim>\<open>std::vector<std::array<int, CANTIDAD_RANGOS>> valoresMapeados(totalElementos);\<close>
  holds \<open>totalElementos\<close> arrays of zeros before the map loop runs.
\<close>

definition estadoInicial :: "int list \<Rightarrow> nat \<Rightarrow> estado" where
  "estadoInicial entrada totalElementos =
     \<lparr>datos = entrada,
      valoresMapeados = replicate totalElementos ceros,
      histograma = ceros,
      histogramaAcumulado = ceros\<rparr>"

text \<open>
  \<open>ejecutarSecuencial\<close>. The element count is the length narrowed to \<open>int\<close>. A negative
  count becomes, as the \<open>size_t\<close> the constructor of \<open>valoresMapeados\<close> takes, a size above
  the maximum of a vector: the constructor throws and the run ends there. Otherwise the
  three stages run on the first \<open>totalElementos\<close> values.
\<close>

definition ejecutarSecuencial :: "int list \<Rightarrow> int \<Rightarrow> error + estado" where
  "ejecutarSecuencial entrada tamanoRango =
     (let totalElementos = aInt (length entrada)
      in if totalElementos < 0 then Inl VectorDemasiadoGrande
         else case mapeoRango tamanoRango 0 (nat totalElementos)
                     (estadoInicial entrada (nat totalElementos)) of
                Inl e \<Rightarrow> Inl e
              | Inr s \<Rightarrow> Inr (escaneoSecuencial (reduccionSecuencial s)))"

subsection \<open>The scheduler\<close>

text \<open>
  Modelled from the spec: \<open>tbb::parallel_for\<close>, \<open>tbb::parallel_reduce\<close> and
  \<open>tbb::parallel_scan\<close> over a \<open>tbb::blocked_range\<close>. TBB is a library the program links
  against; its code is not in the repository. The specification gives the contract of
  the three algorithms: the scheduler splits the index range into contiguous sub-ranges,
  runs the body of the stage on each, combines the partial results with the combination
  function, and runs the scan in two passes. A schedule is a tree of splits of the
  range: \<open>Corte k robado izq der\<close> cuts the range at \<open>k\<close> (brought into the range), gives
  the left part to \<open>izq\<close> and the right part to \<open>der\<close>, and \<open>robado\<close> tells whether
  another worker stole the right part. Every tree is a schedule of every range, so a
  statement about all trees is a statement about all partitions. The sub-ranges of a
  schedule run one after another in the model.
\<close>

datatype particion = Hoja | Corte nat bool particion particion

definition puntoDeCorte :: "nat \<Rightarrow> nat \<Rightarrow> nat \<Rightarrow> nat" where
  "puntoDeCorte ini fin k = max ini (min k fin)"

text \<open>Modelled from the spec: \<open>tbb::parallel_for\<close>. The body runs once on every leaf.
  A stolen right part runs on another worker; the model lets it finish before the left
  part starts.\<close>

fun parallel_for ::
  "particion \<Rightarrow> nat \<Rightarrow> nat \<Rightarrow> (nat \<Rightarrow> nat \<Rightarrow> 'a \<Rightarrow> error + 'a) \<Rightarrow> 'a \<Rightarrow> error + 'a" where
  "parallel_for Hoja ini fin cuerpo s = cuerpo ini fin s"
| "parallel_for (Corte k robado izq der) ini fin cuerpo s =
     (let medio = puntoDeCorte ini fin k
      in if robado
         then (case parallel_for der medio fin cuerpo s of
                 Inl e \<Rightarrow> Inl e
               | Inr s' \<Rightarrow> parallel_for izq ini medio cuerpo s')
         else (case parallel_for izq ini medio cuerpo s of
                 Inl e \<Rightarrow> Inl e
               | Inr s' \<Rightarrow> parallel_for der medio fin cuerpo s'))"

text \<open>Modelled from the spec: \<open>tbb::parallel_reduce\<close> in its functional form. A worker
  carries its partial value from a leaf to the next one; a stolen right part starts from
  the identity and its result is joined to the left one with the combination function.\<close>

fun parallel_reduce ::
  "particion \<Rightarrow> nat \<Rightarrow> nat \<Rightarrow> 'v \<Rightarrow> (nat \<Rightarrow> nat \<Rightarrow> 'v \<Rightarrow> 'v) \<Rightarrow> ('v \<Rightarrow> 'v \<Rightarrow> 'v) \<Rightarrow> 'v \<Rightarrow> 'v" where
  "parallel_reduce Hoja ini fin identidad cuerpo unir valor = cuerpo ini fin valor"
| "parallel_reduce (Corte k robado izq der) ini fin identidad cuerpo unir valor =
     (let medio = puntoDeCorte ini fin k;
          izquierda = parallel_reduce izq ini medio identidad cuerpo unir valor
      in if robado
         then unir izquierda (parallel_reduce der medio fin identidad cuerpo unir identidad)
         else parallel_reduce der medio fin identidad cuerpo unir izquierda)"

text \<open>Modelled from the spec: \<open>tbb::parallel_scan\<close> in its functional form, as a
  two-pass scan. A leaf that was not stolen runs the final pass at once, seeded with the
  sum of everything to its left. A stolen leaf first runs a pass that is not final, from
  the identity; the sum to its right is the combination of the sum to its left with what
  that pass returned; its final pass runs afterwards with the sum to its left as seed.\<close>

fun parallel_scan ::
  "particion \<Rightarrow> bool \<Rightarrow> nat \<Rightarrow> nat \<Rightarrow> 'v \<Rightarrow> (nat \<Rightarrow> nat \<Rightarrow> 'v \<Rightarrow> bool \<Rightarrow> 'a \<Rightarrow> 'v \<times> 'a)
     \<Rightarrow> ('v \<Rightarrow> 'v \<Rightarrow> 'v) \<Rightarrow> 'v \<times> 'a \<Rightarrow> 'v \<times> 'a" where
  "parallel_scan Hoja ajeno ini fin identidad cuerpo unir (suma, s) =
     (if ajeno
      then (let (parcial, s1) = cuerpo ini fin identidad False s;
                (final, s2) = cuerpo ini fin suma True s1
            in (unir suma parcial, s2))
      else cuerpo ini fin suma True s)"
| "parallel_scan (Corte k robado izq der) ajeno ini fin identidad cuerpo unir (suma, s) =
     (let medio = puntoDeCorte ini fin k
      in parallel_scan der (ajeno \<or> robado) medio fin identidad cuerpo unir
           (parallel_scan izq ajeno ini medio identidad cuerpo unir (suma, s)))"

subsection \<open>The parallel backend\<close>

record planificacion =
  planMapeo :: particion
  planReduccion :: particion
  planEscaneo :: particion

text \<open>
  \<open>ejecutarParalelo\<close>. The element count is narrowed as in the sequential backend, and
  the ranges of the map and of the reduction are
  \<^verbatim>\<open>tbb::blocked_range<int>(0, totalElementos)\<close>.
\<close>

definition ejecutarParalelo :: "planificacion \<Rightarrow> int list \<Rightarrow> int \<Rightarrow> error + estado" where
  "ejecutarParalelo plan entrada tamanoRango =
     (let totalElementos = aInt (length entrada)
      in if totalElementos < 0 then Inl VectorDemasiadoGrande
         else case parallel_for (planMapeo plan) 0 (nat totalElementos)
                     (mapeoRango tamanoRango) (estadoInicial entrada (nat totalElementos)) of
                Inl e \<Rightarrow> Inl e
              | Inr s1 \<Rightarrow>
                  let s2 = s1\<lparr>histograma :=
                             parallel_reduce (planReduccion plan) 0 (nat totalElementos) ceros
                               (reduccionRango (valoresMapeados s1)) combinar ceros\<rparr>;
                      s3 = s2\<lparr>histogramaAcumulado := ceros\<rparr>
                  in Inr (snd (parallel_scan (planEscaneo plan) False 0 CANTIDAD_RANGOS 0
                                 escaneoRango (+) (0, s3))))"

section \<open>Closed forms of the stages\<close>

text \<open>What each loop of the program computes, written without loops. The proofs below
  show that the loops compute these; the claims are then read off them.\<close>

text \<open>The map stage on one value: the one-hot array of its bucket, or the failure of the
  division or of the store.\<close>

definition mapearValor :: "int \<Rightarrow> int \<Rightarrow> error + int list" where
  "mapearValor W v =
     (case calcularIndiceRango v W of
        Inl e \<Rightarrow> Inl e
      | Inr indice \<Rightarrow>
          if 0 \<le> indice \<and> indice < int CANTIDAD_RANGOS
          then Inr (ceros[nat indice := 1])
          else Inl IndiceFueraDeRango)"

text \<open>With a given width every failing value fails the same way.\<close>

definition fallo :: "int \<Rightarrow> error" where
  "fallo W = (if W = 0 then DivisionPorCero else IndiceFueraDeRango)"

definition valido :: "int \<Rightarrow> int \<Rightarrow> bool" where
  "valido W v = (case mapearValor W v of Inl e \<Rightarrow> False | Inr t \<Rightarrow> True)"

definition unoDe :: "int \<Rightarrow> int \<Rightarrow> int list" where
  "unoDe W v = (case mapearValor W v of Inl e \<Rightarrow> ceros | Inr t \<Rightarrow> t)"

text \<open>An array whose positions from \<open>ini\<close> up to \<open>fin\<close> have been overwritten.\<close>

definition escribir :: "nat \<Rightarrow> nat \<Rightarrow> (nat \<Rightarrow> 'a) \<Rightarrow> 'a list \<Rightarrow> 'a list" where
  "escribir ini fin f xs = map (\<lambda>i. if ini \<le> i \<and> i < fin then f i else xs ! i) [0..<length xs]"

definition mapeoForma :: "int \<Rightarrow> nat \<Rightarrow> nat \<Rightarrow> estado \<Rightarrow> error + estado" where
  "mapeoForma W ini fin s =
     (if list_all (\<lambda>i. valido W (datos s ! i)) [ini..<fin]
      then Inr (s\<lparr>valoresMapeados :=
                   escribir ini fin (\<lambda>i. unoDe W (datos s ! i)) (valoresMapeados s)\<rparr>)
      else Inl (fallo W))"

text \<open>A partial histogram after the rows from \<open>ini\<close> up to \<open>fin\<close> have been added to it.\<close>

definition acumular :: "int list list \<Rightarrow> nat \<Rightarrow> nat \<Rightarrow> int list \<Rightarrow> int list" where
  "acumular mapeados ini fin parcial =
     map (\<lambda>j. parcial ! j + (\<Sum>i = ini..<fin. mapeados ! i ! j)) [0..<CANTIDAD_RANGOS]"

text \<open>The cumulative array after a final pass of the scan over \<open>ini\<close> up to \<open>fin\<close>, seeded
  with \<open>suma\<close>.\<close>

definition prefijos :: "nat \<Rightarrow> nat \<Rightarrow> int \<Rightarrow> int list \<Rightarrow> int list \<Rightarrow> int list" where
  "prefijos ini fin suma h acc =
     map (\<lambda>i. if ini \<le> i \<and> i < fin then suma + (\<Sum>k = ini..<Suc i. h ! k) else acc ! i)
       [0..<length acc]"

text \<open>The result of a whole run.\<close>

definition histogramaDe :: "int \<Rightarrow> int list \<Rightarrow> int list" where
  "histogramaDe W d = map (\<lambda>j. \<Sum>v\<leftarrow>d. unoDe W v ! j) [0..<CANTIDAD_RANGOS]"

definition acumuladoDe :: "int list \<Rightarrow> int list" where
  "acumuladoDe h = map (\<lambda>i. \<Sum>k = 0..<Suc i. h ! k) [0..<CANTIDAD_RANGOS]"

definition resultadoDe :: "int \<Rightarrow> int list \<Rightarrow> estado" where
  "resultadoDe W d =
     \<lparr>datos = d,
      valoresMapeados = map (unoDe W) d,
      histograma = histogramaDe W d,
      histogramaAcumulado = acumuladoDe (histogramaDe W d)\<rparr>"

definition formaCerrada :: "int \<Rightarrow> int list \<Rightarrow> error + estado" where
  "formaCerrada W d = (if list_all (valido W) d then Inr (resultadoDe W d) else Inl (fallo W))"

text \<open>The result of a run on an input of any length: the stages see the first
  \<open>totalElementos\<close> values, the input itself stays whole.\<close>

definition formaTotal :: "int \<Rightarrow> int list \<Rightarrow> error + estado" where
  "formaTotal W entrada =
     (if aInt (length entrada) < 0 then Inl VectorDemasiadoGrande
      else map_sum id (\<lambda>r. r\<lparr>datos := entrada\<rparr>)
             (formaCerrada W (take (nat (aInt (length entrada))) entrada)))"

section \<open>Properties of the classifier\<close>

lemma dividir_no_negativos:
  "0 \<le> a \<Longrightarrow> 0 < b \<Longrightarrow> dividir a b = Inr (a div b)"
  by (cases "a = 0") (simp_all add: dividir_def)

lemma TAMANO_RANGO_entero: "TAMANO_RANGO v = (v + 3) div 4"
proof -
  have "\<lceil>real_of_int v / 4\<rceil> = - \<lfloor>real_of_int (- v) / real_of_int 4\<rfloor>"
    by (simp add: ceiling_def)
  also have "\<dots> = - ((- v) div 4)"
    by (simp only: floor_divide_of_int_eq)
  also have "\<dots> = (v + 3) div 4"
    by presburger
  finally show ?thesis
    by (simp add: TAMANO_RANGO_def CANTIDAD_RANGOS_def)
qed

lemma dividir_truncada:
  assumes "1 \<le> W"
  shows "dividir a W = Inr (if 0 \<le> a then a div W else - ((- a) div W))"
  using assms by (cases "a = 0") (auto simp: dividir_def sgn_if)

lemma clasificar_positivo:
  assumes "1 \<le> W" and "0 < x"
  shows "calcularIndiceRango x W = Inr (min ((x - 1) div W) (int CANTIDAD_RANGOS - 1))"
proof -
  have "dividir (x - 1) W = Inr ((x - 1) div W)"
    using assms by (intro dividir_no_negativos) simp_all
  then show ?thesis
    using assms(2) by (simp add: calcularIndiceRango_def)
qed

lemma clasificar_no_positivo:
  assumes "1 \<le> W" and "x \<le> 0"
  shows "\<exists>b. calcularIndiceRango x W = Inr b \<and> b \<le> 0"
proof -
  have "0 \<le> (- x) div W"
    using assms by (simp add: pos_imp_zdiv_nonneg_iff)
  then show ?thesis
    using assms by (simp add: calcularIndiceRango_def dividir_truncada CANTIDAD_RANGOS_def)
qed

lemma clasificar_cero: "1 \<le> W \<Longrightarrow> calcularIndiceRango 0 W = Inr 0"
  by (simp add: calcularIndiceRango_def dividir_def CANTIDAD_RANGOS_def)

text \<open>
  Claim C2. On a value \<open>x \<ge> 0\<close> (so on every value of \<open>[0, V]\<close>) and a width
  \<open>W \<ge> 1\<close> the classifier of the source returns what the three-step rule of the
  specification returns: the floor of \<open>x' / W\<close> clamped to \<open>B - 1\<close>, where
  \<open>x' = x - 1\<close> for \<open>x > 0\<close> and \<open>x' = 0\<close> otherwise.
\<close>

theorem clasificador_segun_spec:
  assumes "0 \<le> x" and "1 \<le> W"
  shows "calcularIndiceRango x W = Inr (clasificarSegunSpec (int CANTIDAD_RANGOS) W x)"
proof -
  let ?x' = "if x > 0 then x - 1 else 0"
  have a: "(if x > 0 then x - 1 else x) = ?x'"
    using assms(1) by simp
  have "0 \<le> ?x'"
    using assms(1) by simp
  then have "dividir ?x' W = Inr (?x' div W)"
    using assms(2) by (intro dividir_no_negativos) simp_all
  moreover have "\<lfloor>real_of_int ?x' / real_of_int W\<rfloor> = ?x' div W"
    by (simp only: floor_divide_of_int_eq)
  ultimately show ?thesis
    unfolding calcularIndiceRango_def clasificarSegunSpec_def Let_def a by simp
qed

theorem clasificador_segun_spec_witness:
  "calcularIndiceRango 31 30 = Inr (clasificarSegunSpec (int CANTIDAD_RANGOS) 30 31) \<and>
   clasificarSegunSpec (int CANTIDAD_RANGOS) 30 31 = 1 \<and>
   calcularIndiceRango 120 30 = Inr (clasificarSegunSpec (int CANTIDAD_RANGOS) 30 120) \<and>
   clasificarSegunSpec (int CANTIDAD_RANGOS) 30 120 = 3"
  using clasificador_segun_spec [of 31 30] clasificador_segun_spec [of 120 30]
  by (simp add: clasificarSegunSpec_def CANTIDAD_RANGOS_def)

text \<open>
  Claim C4, as stated, fails: the classifier clamps from above only. A negative value
  keeps its sign through the truncating division, so \<open>-30\<close> with width \<open>30\<close> is
  classified as \<open>-1\<close>, which is no bucket.
\<close>

theorem indice_negativo_counterexample:
  "calcularIndiceRango (- 30) 30 = Inr (- 1)"
  by (simp add: calcularIndiceRango_def dividir_def CANTIDAD_RANGOS_def)

text \<open>
  Claim C4, amended. For a width \<open>W \<ge> 1\<close> the classifier returns a valid bucket index
  \<open>0 \<le> b < B\<close> exactly for the values \<open>x > -W\<close>: for every value \<open>x \<ge> 0\<close>,
  however large, and for the negative values that the division truncates to zero.
\<close>

theorem indice_valido_sii:
  assumes "1 \<le> W"
  shows "(\<exists>b. calcularIndiceRango x W = Inr b \<and> 0 \<le> b \<and> b < int CANTIDAD_RANGOS)
         = (- W < x)"
proof -
  let ?a = "if x > 0 then x - 1 else x"
  let ?q = "if 0 \<le> ?a then ?a div W else - ((- ?a) div W)"
  have c: "calcularIndiceRango x W = Inr (min ?q (int CANTIDAD_RANGOS - 1))"
    unfolding calcularIndiceRango_def Let_def dividir_truncada [OF assms] by simp
  have W: "0 < W"
    using assms by simp
  have q: "(0 \<le> ?q) = (- W < x)"
  proof (cases "0 \<le> ?a")
    case True
    then have "0 \<le> ?a div W"
      using W by (simp add: pos_imp_zdiv_nonneg_iff)
    moreover have "- W < x"
      using True W by (auto split: if_splits)
    ultimately show ?thesis
      using True by simp
  next
    case False
    then have x: "x < 0" "?a = x"
      by (auto split: if_splits)
    have "(0 < (- x) div W) = (W \<le> - x)"
      using W by (rule pos_imp_zdiv_pos_iff)
    then have "((- x) div W \<le> 0) = (- x < W)"
      by linarith
    then show ?thesis
      using False x by auto
  qed
  show ?thesis
    unfolding c using q by (auto simp: CANTIDAD_RANGOS_def)
qed

theorem indice_valido_sii_witness:
  "(\<exists>b. calcularIndiceRango 1000 30 = Inr b \<and> 0 \<le> b \<and> b < int CANTIDAD_RANGOS) \<and>
   (\<exists>b. calcularIndiceRango (- 29) 30 = Inr b \<and> 0 \<le> b \<and> b < int CANTIDAD_RANGOS) \<and>
   \<not> (\<exists>b. calcularIndiceRango (- 30) 30 = Inr b \<and> 0 \<le> b \<and> b < int CANTIDAD_RANGOS)"
  using indice_valido_sii [of 30 1000] indice_valido_sii [of 30 "- 29"]
    indice_valido_sii [of 30 "- 30"]
  by simp

subsection \<open>The displayed bounds against the classifier\<close>

lemma div_multiplo_menos:
  fixes W :: int
  assumes "1 \<le> W"
  shows "((i + 1) * W - 1) div W = i"
proof (rule int_div_pos_eq)
  show "(i + 1) * W - 1 = W * i + (W - 1)"
    by (simp add: algebra_simps)
  show "0 \<le> W - 1"
    using assms by simp
  show "W - 1 < W"
    by simp
qed

lemma limites_divisible:
  assumes "1 \<le> W" and "V = int CANTIDAD_RANGOS * W"
    and "0 \<le> i" and "i < int CANTIDAD_RANGOS"
  shows "calcularIndiceRango (limiteInferior V W i) W = Inr i"
    and "calcularIndiceRango (limiteSuperior V W i) W = Inr i"
proof -
  have sup: "limiteSuperior V W i = (i + 1) * W"
    using assms(2) by (simp add: limiteSuperior_def algebra_simps)
  have "0 < (i + 1) * W"
    using assms by simp
  then have "calcularIndiceRango ((i + 1) * W) W
      = Inr (min (((i + 1) * W - 1) div W) (int CANTIDAD_RANGOS - 1))"
    using assms(1) by (intro clasificar_positivo)
  then show "calcularIndiceRango (limiteSuperior V W i) W = Inr i"
    unfolding sup div_multiplo_menos [OF assms(1)]
    using assms(4) by simp
  show "calcularIndiceRango (limiteInferior V W i) W = Inr i"
  proof (cases "i = 0")
    case True
    then show ?thesis
      using assms(1) by (simp add: limiteInferior_def clasificar_cero)
  next
    case False
    then have inf: "limiteInferior V W i = i * W + 1"
      using assms(2) by (simp add: limiteInferior_def algebra_simps)
    have "0 \<le> i * W"
      using assms by simp
    then have "calcularIndiceRango (i * W + 1) W
        = Inr (min ((i * W + 1 - 1) div W) (int CANTIDAD_RANGOS - 1))"
      using assms(1) by (intro clasificar_positivo) simp_all
    then have "calcularIndiceRango (i * W + 1) W = Inr i"
      using assms(1,4) by simp
    then show ?thesis
      unfolding inf .
  qed
qed

lemma limite_inferior_uno:
  assumes "1 \<le> V"
    and "calcularIndiceRango (limiteInferior V (TAMANO_RANGO V) 1) (TAMANO_RANGO V) = Inr 1"
  shows "V = int CANTIDAD_RANGOS * TAMANO_RANGO V"
proof -
  let ?W = "TAMANO_RANGO V"
  have W: "1 \<le> ?W"
    using assms(1) unfolding TAMANO_RANGO_entero by presburger
  have r: "V \<le> 4 * ?W"
    unfolding TAMANO_RANGO_entero by presburger
  let ?x = "limiteInferior V ?W 1"
  have x: "?x = V - 3 * ?W + 1"
    by (simp add: limiteInferior_def CANTIDAD_RANGOS_def)
  have pos: "0 < ?x"
  proof (rule ccontr)
    assume "\<not> 0 < ?x"
    then have "?x \<le> 0"
      by simp
    from clasificar_no_positivo [OF W this] assms(2) show False
      by auto
  qed
  from clasificar_positivo [OF W pos] assms(2)
  have "min ((?x - 1) div ?W) (int CANTIDAD_RANGOS - 1) = 1"
    by simp
  then have "(?x - 1) div ?W = 1"
    by (simp add: CANTIDAD_RANGOS_def min_def split: if_splits)
  then have "0 < (?x - 1) div ?W"
    by simp
  then have "?W \<le> ?x - 1"
    using W by (simp add: pos_imp_zdiv_pos_iff)
  then show ?thesis
    using r x by (simp add: CANTIDAD_RANGOS_def)
qed

text \<open>
  Claim C5, as stated, fails when the bucket count does not divide the maximum: with
  \<open>V = 5\<close> the width is \<open>2\<close>, the displayed upper bound of bucket \<open>1\<close> is the value
  \<open>1\<close>, which the classifier puts in bucket \<open>0\<close>, and the maximum \<open>5\<close> itself lands in
  bucket \<open>2\<close>, not in the last bucket \<open>3\<close>.
\<close>

theorem ley_de_limites_counterexample:
  "TAMANO_RANGO 5 = 2 \<and> limiteSuperior 5 (TAMANO_RANGO 5) 1 = 1 \<and>
   calcularIndiceRango (limiteSuperior 5 (TAMANO_RANGO 5) 1) (TAMANO_RANGO 5) = Inr 0 \<and>
   calcularIndiceRango 5 (TAMANO_RANGO 5) = Inr 2"
  by (simp add: TAMANO_RANGO_entero limiteSuperior_def calcularIndiceRango_def
      dividir_def CANTIDAD_RANGOS_def)

lemma clasificar_maximo:
  assumes "1 \<le> V" and "1 \<le> W"
  shows "(calcularIndiceRango V W = Inr (int CANTIDAD_RANGOS - 1))
         = ((int CANTIDAD_RANGOS - 1) * W < V)"
proof -
  have c: "calcularIndiceRango V W = Inr (min ((V - 1) div W) 3)"
    using assms by (simp add: clasificar_positivo CANTIDAD_RANGOS_def)
  have W: "0 < W"
    using assms(2) by simp
  show ?thesis
  proof (cases "3 * W < V")
    case True
    then have "(3 * W) div W \<le> (V - 1) div W"
      using W by (intro zdiv_mono1) simp_all
    then have "3 \<le> (V - 1) div W"
      using W by simp
    then show ?thesis
      using True by (simp add: c CANTIDAD_RANGOS_def)
  next
    case False
    then have "(V - 1) div W \<le> ((2 + 1) * W - 1) div W"
      using W by (intro zdiv_mono1) simp_all
    then have "(V - 1) div W \<le> 2"
      unfolding div_multiplo_menos [OF assms(2)] .
    then show ?thesis
      using False by (simp add: c CANTIDAD_RANGOS_def)
  qed
qed

text \<open>
  Claim C5, amended. With \<open>V \<ge> 1\<close> and \<open>W = \<lceil>V / B\<rceil>\<close>, every bucket \<open>i\<close> has both
  displayed bounds classified into \<open>i\<close> exactly when \<open>B * W = V\<close> (as in the reference
  configuration \<open>V = 120\<close>, \<open>W = 30\<close>); the value \<open>0\<close> is always classified into bucket
  \<open>0\<close>; and the maximum \<open>V\<close> is classified into bucket \<open>B - 1\<close> exactly when
  \<open>(B - 1) * W < V\<close>, which \<open>B * W = V\<close> implies.
\<close>

theorem ley_de_limites:
  assumes "1 \<le> V"
  shows "((\<forall>i. 0 \<le> i \<and> i < int CANTIDAD_RANGOS \<longrightarrow>
             calcularIndiceRango (limiteInferior V (TAMANO_RANGO V) i) (TAMANO_RANGO V) = Inr i \<and>
             calcularIndiceRango (limiteSuperior V (TAMANO_RANGO V) i) (TAMANO_RANGO V) = Inr i)
          = (V = int CANTIDAD_RANGOS * TAMANO_RANGO V)) \<and>
         calcularIndiceRango 0 (TAMANO_RANGO V) = Inr 0 \<and>
         ((calcularIndiceRango V (TAMANO_RANGO V) = Inr (int CANTIDAD_RANGOS - 1))
          = ((int CANTIDAD_RANGOS - 1) * TAMANO_RANGO V < V))"
proof (intro conjI)
  let ?W = "TAMANO_RANGO V"
  have W: "1 \<le> ?W"
    using assms(1) unfolding TAMANO_RANGO_entero by presburger
  show "calcularIndiceRango 0 ?W = Inr 0"
    using W by (rule clasificar_cero)
  show "(\<forall>i. 0 \<le> i \<and> i < int CANTIDAD_RANGOS \<longrightarrow>
            calcularIndiceRango (limiteInferior V ?W i) ?W = Inr i \<and>
            calcularIndiceRango (limiteSuperior V ?W i) ?W = Inr i)
         = (V = int CANTIDAD_RANGOS * ?W)" (is "?L = ?R")
  proof
    assume ?L
    then have "calcularIndiceRango (limiteInferior V ?W 1) ?W = Inr 1"
      by (simp add: CANTIDAD_RANGOS_def)
    with assms show ?R
      by (rule limite_inferior_uno)
  next
    assume ?R
    then show ?L
      using limites_divisible [OF W] by blast
  qed
  show "(calcularIndiceRango V ?W = Inr (int CANTIDAD_RANGOS - 1))
      = ((int CANTIDAD_RANGOS - 1) * ?W < V)"
    using assms W by (rule clasificar_maximo)
qed

theorem ley_de_limites_witness:
  "TAMANO_RANGO 120 = 30 \<and>
   calcularIndiceRango (limiteInferior 120 (TAMANO_RANGO 120) 2) (TAMANO_RANGO 120) = Inr 2 \<and>
   calcularIndiceRango (limiteSuperior 120 (TAMANO_RANGO 120) 2) (TAMANO_RANGO 120) = Inr 2 \<and>
   calcularIndiceRango 0 (TAMANO_RANGO 120) = Inr 0 \<and>
   calcularIndiceRango 120 (TAMANO_RANGO 120) = Inr 3"
proof -
  have w: "TAMANO_RANGO 120 = 30"
    by (simp add: TAMANO_RANGO_entero)
  have d: "(120::int) = int CANTIDAD_RANGOS * TAMANO_RANGO 120"
    by (simp add: w CANTIDAD_RANGOS_def)
  have r: "(0::int) \<le> 2 \<and> 2 < int CANTIDAD_RANGOS"
    by (simp add: CANTIDAD_RANGOS_def)
  from ley_de_limites [of 120] d r show ?thesis
    by (simp add: w CANTIDAD_RANGOS_def)
qed

section \<open>The loops\<close>

lemma para_fold: "para i fin cuerpo s = fold cuerpo [i..<fin] s"
proof (induction i fin cuerpo s rule: para.induct)
  case (1 i fin cuerpo s)
  show ?case
  proof (cases "i < fin")
    case True
    then have "[i..<fin] = i # [Suc i..<fin]"
      by (rule upt_conv_Cons)
    with True "1" show ?thesis
      by (subst para.simps) simp
  next
    case False
    then show ?thesis
      by (subst para.simps) simp
  qed
qed

lemma para_vacio: "fin \<le> i \<Longrightarrow> para i fin cuerpo s = s"
  by (simp add: para_fold)

lemma para_ultimo:
  "i \<le> fin \<Longrightarrow> para i (Suc fin) cuerpo s = cuerpo fin (para i fin cuerpo s)"
  by (simp add: para_fold)

lemma para_partido:
  assumes "i \<le> medio" and "medio \<le> fin"
  shows "para medio fin cuerpo (para i medio cuerpo s) = para i fin cuerpo s"
proof -
  have "[i..<fin] = [i..<medio] @ [medio..<fin]"
    using assms by (metis le_Suc_ex upt_add_eq_append)
  then show ?thesis
    by (simp add: para_fold)
qed

text \<open>A loop that rewrites the positions below \<open>n\<close> of an array, one by one.\<close>

lemma bucle_puntual_length:
  "length (fold (\<lambda>j p. p[j := g j (p ! j)]) [0..<n] p) = length p"
  by (induction n) simp_all

lemma bucle_puntual_nth:
  assumes "k < length p"
  shows "fold (\<lambda>j p. p[j := g j (p ! j)]) [0..<n] p ! k = (if k < n then g k (p ! k) else p ! k)"
  using assms
proof (induction n)
  case 0
  then show ?case by simp
next
  case (Suc n)
  then show ?case
    by (auto simp: bucle_puntual_length nth_list_update less_Suc_eq)
qed

lemma bucle_puntual:
  assumes "length p = n"
  shows "para 0 n (\<lambda>j p. p[j := g j (p ! j)]) p = map (\<lambda>j. g j (p ! j)) [0..<n]"
  unfolding para_fold
  using assms by (intro nth_equalityI) (simp_all add: bucle_puntual_length bucle_puntual_nth)

lemma bucle_constante:
  assumes "length p = n"
  shows "para 0 n (\<lambda>j p. p[j := g j]) p = map g [0..<n]"
  using bucle_puntual [OF assms, of "\<lambda>j _. g j"] by simp

lemma length_ceros [simp]: "length ceros = CANTIDAD_RANGOS"
  by (simp add: ceros_def)

lemma nth_ceros [simp]: "j < CANTIDAD_RANGOS \<Longrightarrow> ceros ! j = 0"
  by (simp add: ceros_def)

lemma combinar_puntual: "combinar a b = map (\<lambda>i. a ! i + b ! i) [0..<CANTIDAD_RANGOS]"
  unfolding combinar_def by (rule bucle_constante) simp

section \<open>The reduce stage\<close>

lemma length_acumular [simp]: "length (acumular ms ini fin p) = CANTIDAD_RANGOS"
  by (simp add: acumular_def)

lemma nth_acumular [simp]:
  "j < CANTIDAD_RANGOS \<Longrightarrow> acumular ms ini fin p ! j = p ! j + (\<Sum>i = ini..<fin. ms ! i ! j)"
  by (simp add: acumular_def)

lemma acumular_vacio:
  assumes "length p = CANTIDAD_RANGOS" and "fin \<le> ini"
  shows "acumular ms ini fin p = p"
  using assms by (intro nth_equalityI) simp_all

lemma sumar_fila:
  assumes "length p = CANTIDAD_RANGOS"
  shows "para 0 CANTIDAD_RANGOS (\<lambda>j p. p[j := p ! j + m ! j]) p
         = map (\<lambda>j. p ! j + m ! j) [0..<CANTIDAD_RANGOS]"
  using assms by (rule bucle_puntual [where g = "\<lambda>j x. x + m ! j"])

lemma reduccionRango_acumular:
  assumes "length p = CANTIDAD_RANGOS"
  shows "reduccionRango ms ini fin p = acumular ms ini fin p"
proof (cases "ini \<le> fin")
  case False
  then show ?thesis
    using assms by (simp add: reduccionRango_def para_vacio acumular_vacio)
next
  case True
  then show ?thesis
  proof (induction fin rule: dec_induct)
    case base
    then show ?case
      using assms by (simp add: reduccionRango_def para_vacio acumular_vacio)
  next
    case (step n)
    have "reduccionRango ms ini (Suc n) p
        = para 0 CANTIDAD_RANGOS (\<lambda>j q. q[j := q ! j + ms ! n ! j]) (reduccionRango ms ini n p)"
      using step.hyps(1) unfolding reduccionRango_def by (rule para_ultimo)
    also have "\<dots> = map (\<lambda>j. acumular ms ini n p ! j + ms ! n ! j) [0..<CANTIDAD_RANGOS]"
      unfolding step.IH by (rule sumar_fila) simp
    also have "\<dots> = acumular ms ini (Suc n) p"
      using step.hyps(1) by (intro nth_equalityI) simp_all
    finally show ?case .
  qed
qed

lemma combinar_acumular:
  assumes "ini \<le> medio" and "medio \<le> fin"
  shows "combinar (acumular ms ini medio p) (acumular ms medio fin ceros) = acumular ms ini fin p"
proof (rule nth_equalityI)
  show "length (combinar (acumular ms ini medio p) (acumular ms medio fin ceros))
      = length (acumular ms ini fin p)"
    by (simp add: combinar_puntual)
next
  fix j
  assume "j < length (combinar (acumular ms ini medio p) (acumular ms medio fin ceros))"
  then have j: "j < CANTIDAD_RANGOS"
    by (simp add: combinar_puntual)
  have "(\<Sum>i = ini..<medio. ms ! i ! j) + (\<Sum>i = medio..<fin. ms ! i ! j)
      = (\<Sum>i = ini..<fin. ms ! i ! j)"
    using assms by (rule sum.atLeastLessThan_concat)
  then show "combinar (acumular ms ini medio p) (acumular ms medio fin ceros) ! j
      = acumular ms ini fin p ! j"
    using j by (simp add: combinar_puntual)
qed

lemma acumular_seguido:
  assumes "ini \<le> medio" and "medio \<le> fin"
  shows "acumular ms medio fin (acumular ms ini medio p) = acumular ms ini fin p"
proof (rule nth_equalityI)
  fix j
  assume "j < length (acumular ms medio fin (acumular ms ini medio p))"
  then have j: "j < CANTIDAD_RANGOS"
    by simp
  have "(\<Sum>i = ini..<medio. ms ! i ! j) + (\<Sum>i = medio..<fin. ms ! i ! j)
      = (\<Sum>i = ini..<fin. ms ! i ! j)"
    using assms by (rule sum.atLeastLessThan_concat)
  then show "acumular ms medio fin (acumular ms ini medio p) ! j = acumular ms ini fin p ! j"
    using j by simp
qed simp

lemma puntoDeCorte_entre:
  "ini \<le> fin \<Longrightarrow> ini \<le> puntoDeCorte ini fin k \<and> puntoDeCorte ini fin k \<le> fin"
  by (simp add: puntoDeCorte_def)

lemma parallel_reduce_acumular:
  assumes "ini \<le> fin" and "length valor = CANTIDAD_RANGOS"
  shows "parallel_reduce plan ini fin ceros (reduccionRango ms) combinar valor
         = acumular ms ini fin valor"
  using assms
proof (induction plan arbitrary: ini fin valor)
  case Hoja
  then show ?case
    by (simp add: reduccionRango_acumular)
next
  case (Corte k robado izq der)
  let ?m = "puntoDeCorte ini fin k"
  have m: "ini \<le> ?m" "?m \<le> fin"
    using Corte.prems(1) by (simp_all add: puntoDeCorte_entre)
  have izq: "parallel_reduce izq ini ?m ceros (reduccionRango ms) combinar valor
      = acumular ms ini ?m valor"
    using m(1) Corte.prems(2) by (rule Corte.IH(1))
  have der: "parallel_reduce der ?m fin ceros (reduccionRango ms) combinar v
      = acumular ms ?m fin v" if "length v = CANTIDAD_RANGOS" for v
    using m(2) that by (rule Corte.IH(2))
  show ?case
    using m by (simp add: Let_def izq der combinar_acumular acumular_seguido)
qed

text \<open>The sequential reduction, row by row.\<close>

lemma fold_histograma:
  "fold (\<lambda>j s. s\<lparr>histograma := f j (histograma s)\<rparr>) js s
   = s\<lparr>histograma := fold f js (histograma s)\<rparr>"
  by (induction js arbitrary: s) simp_all

lemma sumar_fila_estado:
  assumes "length (histograma s) = CANTIDAD_RANGOS"
  shows "para 0 CANTIDAD_RANGOS
           (\<lambda>j s. s\<lparr>histograma := (histograma s)[j := histograma s ! j + m ! j]\<rparr>) s
         = s\<lparr>histograma := map (\<lambda>j. histograma s ! j + m ! j) [0..<CANTIDAD_RANGOS]\<rparr>"
proof -
  have "para 0 CANTIDAD_RANGOS
           (\<lambda>j s. s\<lparr>histograma := (histograma s)[j := histograma s ! j + m ! j]\<rparr>) s
      = s\<lparr>histograma := fold (\<lambda>j p. p[j := p ! j + m ! j]) [0..<CANTIDAD_RANGOS] (histograma s)\<rparr>"
    unfolding para_fold by (rule fold_histograma [where f = "\<lambda>j p. p[j := p ! j + m ! j]"])
  also have "fold (\<lambda>j p. p[j := p ! j + m ! j]) [0..<CANTIDAD_RANGOS] (histograma s)
      = map (\<lambda>j. histograma s ! j + m ! j) [0..<CANTIDAD_RANGOS]"
    using sumar_fila [OF assms, of m] by (simp add: para_fold)
  finally show ?thesis .
qed

lemma reduccion_filas:
  assumes "length (histograma s) = CANTIDAD_RANGOS"
  shows "fold
       (\<lambda>mapeado s. para 0 CANTIDAD_RANGOS
          (\<lambda>j s. s\<lparr>histograma := (histograma s)[j := histograma s ! j + mapeado ! j]\<rparr>) s)
       ms s
     = s\<lparr>histograma := acumular ms 0 (length ms) (histograma s)\<rparr>"
  using assms
proof (induction ms arbitrary: s rule: rev_induct)
  case Nil
  then show ?case
    by (simp add: acumular_vacio)
next
  case (snoc m ms)
  have "acumular (ms @ [m]) 0 (length ms) (histograma s) = acumular ms 0 (length ms) (histograma s)"
    by (intro nth_equalityI) (simp_all add: nth_append)
  moreover have "map (\<lambda>j. acumular ms 0 (length ms) (histograma s) ! j + m ! j) [0..<CANTIDAD_RANGOS]
      = acumular (ms @ [m]) 0 (Suc (length ms)) (histograma s)"
    by (intro nth_equalityI) (simp_all add: nth_append)
  ultimately show ?case
    using snoc by (simp add: sumar_fila_estado)
qed

lemma reduccionSecuencial_acumular:
  "reduccionSecuencial s
   = s\<lparr>histograma := acumular (valoresMapeados s) 0 (length (valoresMapeados s)) ceros\<rparr>"
  unfolding reduccionSecuencial_def
  by (subst reduccion_filas) simp_all

section \<open>The scan stage\<close>

lemma length_prefijos [simp]: "length (prefijos ini fin suma h acc) = length acc"
  by (simp add: prefijos_def)

lemma nth_prefijos [simp]:
  "i < length acc \<Longrightarrow> prefijos ini fin suma h acc ! i
     = (if ini \<le> i \<and> i < fin then suma + (\<Sum>k = ini..<Suc i. h ! k) else acc ! i)"
  by (simp add: prefijos_def)

lemma prefijos_vacio: "fin \<le> ini \<Longrightarrow> prefijos ini fin suma h acc = acc"
  by (intro nth_equalityI) simp_all

lemma prefijos_ultimo:
  assumes "ini \<le> n"
  shows "(prefijos ini n suma h acc)[n := suma + (\<Sum>k = ini..<n. h ! k) + h ! n]
         = prefijos ini (Suc n) suma h acc"
  using assms by (intro nth_equalityI) (auto simp: nth_list_update less_Suc_eq)

lemma escaneoRango_forma:
  "escaneoRango ini fin suma esFinal s =
     (suma + (\<Sum>i = ini..<fin. histograma s ! i),
      if esFinal
      then s\<lparr>histogramaAcumulado := prefijos ini fin suma (histograma s) (histogramaAcumulado s)\<rparr>
      else s)"
proof (cases "ini \<le> fin")
  case False
  then show ?thesis
    by (simp add: escaneoRango_def para_vacio prefijos_vacio)
next
  case True
  then show ?thesis
  proof (induction fin rule: dec_induct)
    case base
    then show ?case
      by (simp add: escaneoRango_def para_vacio prefijos_vacio)
  next
    case (step n)
    have "escaneoRango ini (Suc n) suma esFinal s
        = (\<lambda>(suma, s).
             let suma = suma + histograma s ! n
             in (suma,
                 if esFinal
                 then s\<lparr>histogramaAcumulado := (histogramaAcumulado s)[n := suma]\<rparr>
                 else s))
          (escaneoRango ini n suma esFinal s)"
      using step.hyps(1) unfolding escaneoRango_def by (rule para_ultimo)
    then show ?case
      using step.hyps(1) by (simp add: step.IH Let_def prefijos_ultimo)
  qed
qed

lemma escaneoRango_partido:
  assumes "ini \<le> medio" and "medio \<le> fin"
  shows "(case escaneoRango ini medio suma esFinal s of
            (suma', s') \<Rightarrow> escaneoRango medio fin suma' esFinal s')
         = escaneoRango ini fin suma esFinal s"
proof -
  have "(case escaneoRango ini medio suma esFinal s of
            (suma', s') \<Rightarrow> escaneoRango medio fin suma' esFinal s')
      = para medio fin
          (\<lambda>i (suma, s).
             let suma = suma + histograma s ! i
             in (suma,
                 if esFinal
                 then s\<lparr>histogramaAcumulado := (histogramaAcumulado s)[i := suma]\<rparr>
                 else s))
          (escaneoRango ini medio suma esFinal s)"
    by (cases "escaneoRango ini medio suma esFinal s") (simp add: escaneoRango_def)
  also have "\<dots> = escaneoRango ini fin suma esFinal s"
    unfolding escaneoRango_def using assms by (rule para_partido)
  finally show ?thesis .
qed

lemma parallel_scan_escaneo:
  assumes "ini \<le> fin"
  shows "parallel_scan plan ajeno ini fin 0 escaneoRango (+) (suma, s)
         = escaneoRango ini fin suma True s"
  using assms
proof (induction plan arbitrary: ajeno ini fin suma s)
  case Hoja
  show ?case
  proof (cases ajeno)
    case True
    then show ?thesis
      by (simp add: escaneoRango_forma)
  next
    case False
    then show ?thesis
      by simp
  qed
next
  case (Corte k robado izq der)
  let ?m = "puntoDeCorte ini fin k"
  have m: "ini \<le> ?m" "?m \<le> fin"
    using Corte.prems by (simp_all add: puntoDeCorte_entre)
  obtain suma' s' where r: "escaneoRango ini ?m suma True s = (suma', s')"
    by (cases "escaneoRango ini ?m suma True s")
  have "parallel_scan (Corte k robado izq der) ajeno ini fin 0 escaneoRango (+) (suma, s)
      = parallel_scan der (ajeno \<or> robado) ?m fin 0 escaneoRango (+) (suma', s')"
    by (simp add: Let_def Corte.IH(1) [OF m(1)] r)
  also have "\<dots> = escaneoRango ?m fin suma' True s'"
    using m(2) by (rule Corte.IH(2))
  also have "\<dots> = escaneoRango ini fin suma True s"
    using escaneoRango_partido [OF m, where suma = suma and esFinal = True and s = s] by (simp add: r)
  finally show ?case .
qed

lemma escaneoSecuencial_forma:
  "escaneoSecuencial s
   = s\<lparr>histogramaAcumulado := prefijos 0 CANTIDAD_RANGOS 0 (histograma s) ceros\<rparr>"
proof -
  have "escaneoSecuencial s
      = snd (escaneoRango 0 CANTIDAD_RANGOS 0 True (s\<lparr>histogramaAcumulado := ceros\<rparr>))"
    by (simp add: escaneoSecuencial_def escaneoRango_def)
  then show ?thesis
    by (simp add: escaneoRango_forma)
qed

section \<open>The map stage\<close>

lemma calcularIndiceRango_error:
  "(calcularIndiceRango v W = Inl e) = (W = 0 \<and> e = DivisionPorCero)"
  by (auto simp: calcularIndiceRango_def dividir_def Let_def)

lemma calcularIndiceRango_exito: "calcularIndiceRango v W = Inr b \<Longrightarrow> W \<noteq> 0"
  by (auto simp: calcularIndiceRango_def dividir_def Let_def)

lemma mapearValor_error: "mapearValor W v = Inl e \<Longrightarrow> e = fallo W"
  by (cases "calcularIndiceRango v W")
    (auto simp: mapearValor_def fallo_def calcularIndiceRango_error
      dest: calcularIndiceRango_exito split: if_splits)

lemma mapearValor_casos:
  "mapearValor W v = (if valido W v then Inr (unoDe W v) else Inl (fallo W))"
proof (cases "mapearValor W v")
  case (Inl e)
  then show ?thesis
    using mapearValor_error [OF Inl] by (simp add: valido_def)
next
  case (Inr t)
  then show ?thesis
    by (simp add: valido_def unoDe_def)
qed

lemma cuerpoMapeo_forma:
  "cuerpoMapeo W i s =
     (if valido W (datos s ! i)
      then Inr (s\<lparr>valoresMapeados := (valoresMapeados s)[i := unoDe W (datos s ! i)]\<rparr>)
      else Inl (fallo W))"
proof -
  have "cuerpoMapeo W i s =
      (case mapearValor W (datos s ! i) of
         Inl e \<Rightarrow> Inl e
       | Inr temp \<Rightarrow> Inr (s\<lparr>valoresMapeados := (valoresMapeados s)[i := temp]\<rparr>))"
    by (simp add: cuerpoMapeo_def mapearValor_def split: sum.splits)
  then show ?thesis
    by (simp add: mapearValor_casos)
qed

lemma length_escribir [simp]: "length (escribir ini fin f xs) = length xs"
  by (simp add: escribir_def)

lemma nth_escribir [simp]:
  "i < length xs \<Longrightarrow> escribir ini fin f xs ! i = (if ini \<le> i \<and> i < fin then f i else xs ! i)"
  by (simp add: escribir_def)

lemma escribir_vacio: "fin \<le> ini \<Longrightarrow> escribir ini fin f xs = xs"
  by (intro nth_equalityI) auto

lemma escribir_primero:
  "i < fin \<Longrightarrow> escribir (Suc i) fin f (xs[i := f i]) = escribir i fin f xs"
  by (intro nth_equalityI) (auto simp: nth_list_update Suc_le_eq order_le_less)

lemma escribir_partido:
  assumes "ini \<le> medio" and "medio \<le> fin"
  shows "escribir medio fin f (escribir ini medio f xs) = escribir ini fin f xs"
    and "escribir ini medio f (escribir medio fin f xs) = escribir ini fin f xs"
  using assms by (intro nth_equalityI; auto)+

lemma mapeoRango_forma: "mapeoRango W ini fin s = mapeoForma W ini fin s"
  unfolding mapeoRango_def
proof (induction ini fin "cuerpoMapeo W" s rule: paraFalible.induct)
  case (1 i fin s)
  show ?case
  proof (cases "i < fin")
    case False
    then show ?thesis
      by (subst paraFalible.simps) (simp add: mapeoForma_def escribir_vacio)
  next
    case True
    then have lista: "[i..<fin] = i # [Suc i..<fin]"
      by (rule upt_conv_Cons)
    show ?thesis
    proof (cases "valido W (datos s ! i)")
      case False
      then show ?thesis
        using True by (subst paraFalible.simps) (simp add: cuerpoMapeo_forma mapeoForma_def lista)
    next
      case valido: True
      let ?s' = "s\<lparr>valoresMapeados := (valoresMapeados s)[i := unoDe W (datos s ! i)]\<rparr>"
      have paso: "cuerpoMapeo W i s = Inr ?s'"
        using valido by (simp add: cuerpoMapeo_forma)
      have "paraFalible i fin (cuerpoMapeo W) s = paraFalible (Suc i) fin (cuerpoMapeo W) ?s'"
        using True by (subst paraFalible.simps) (simp add: paso)
      also have "\<dots> = mapeoForma W (Suc i) fin ?s'"
        using True paso by (rule "1")
      also have "\<dots> = mapeoForma W i fin s"
        using True valido
        by (simp add: mapeoForma_def lista escribir_primero [where f = "\<lambda>i. unoDe W (datos s ! i)"])
      finally show ?thesis .
    qed
  qed
qed

lemma mapeoForma_partido:
  assumes "ini \<le> medio" and "medio \<le> fin"
  shows "(case mapeoForma W ini medio s of
            Inl e \<Rightarrow> Inl e
          | Inr s' \<Rightarrow> mapeoForma W medio fin s') = mapeoForma W ini fin s"
    and "(case mapeoForma W medio fin s of
            Inl e \<Rightarrow> Inl e
          | Inr s' \<Rightarrow> mapeoForma W ini medio s') = mapeoForma W ini fin s"
proof -
  have "[ini..<fin] = [ini..<medio] @ [medio..<fin]"
    using assms by (metis le_Suc_ex upt_add_eq_append)
  then have todos: "list_all P [ini..<fin] = (list_all P [ini..<medio] \<and> list_all P [medio..<fin])"
    for P
    by simp
  show "(case mapeoForma W ini medio s of
            Inl e \<Rightarrow> Inl e
          | Inr s' \<Rightarrow> mapeoForma W medio fin s') = mapeoForma W ini fin s"
    using assms by (simp add: mapeoForma_def todos escribir_partido)
  show "(case mapeoForma W medio fin s of
            Inl e \<Rightarrow> Inl e
          | Inr s' \<Rightarrow> mapeoForma W ini medio s') = mapeoForma W ini fin s"
    using assms by (auto simp: mapeoForma_def todos escribir_partido)
qed

lemma parallel_for_forma:
  assumes "ini \<le> fin"
  shows "parallel_for plan ini fin (mapeoRango W) s = mapeoForma W ini fin s"
  using assms
proof (induction plan arbitrary: ini fin s)
  case Hoja
  show ?case
    by (simp add: mapeoRango_forma)
next
  case (Corte k robado izq der)
  let ?m = "puntoDeCorte ini fin k"
  have m: "ini \<le> ?m" "?m \<le> fin"
    using Corte.prems by (simp_all add: puntoDeCorte_entre)
  show ?case
    by (cases robado)
      (simp_all add: Let_def Corte.IH(1) [OF m(1)] Corte.IH(2) [OF m(2)]
        mapeoForma_partido [OF m] cong: sum.case_cong)
qed

section \<open>The whole run\<close>

lemma aInt_pequeno: "n \<le> 2147483647 \<Longrightarrow> aInt n = int n"
  by (simp add: aInt_def)

lemma aInt_cota: "nat (aInt n) \<le> n"
proof -
  have "int n mod 4294967296 \<le> int n"
    by (rule zmod_le_nonneg_dividend) simp
  then show ?thesis
    by (auto simp: aInt_def Let_def nat_le_iff)
qed

lemma mapeo_completo:
  assumes "n \<le> length entrada"
  shows "mapeoForma W 0 n (estadoInicial entrada n) =
     (if list_all (valido W) (take n entrada)
      then Inr ((estadoInicial entrada n)\<lparr>valoresMapeados := map (unoDe W) (take n entrada)\<rparr>)
      else Inl (fallo W))"
proof -
  have "take n entrada = map ((!) entrada) [0..<n]"
    using assms by (intro nth_equalityI) simp_all
  then have "list_all (valido W) (take n entrada) = list_all (\<lambda>i. valido W (entrada ! i)) [0..<n]"
    by (simp add: list_all_iff)
  moreover have "escribir 0 n (\<lambda>i. unoDe W (entrada ! i)) (replicate n ceros)
      = map (unoDe W) (take n entrada)"
    using assms by (intro nth_equalityI) simp_all
  ultimately show ?thesis
    by (simp add: mapeoForma_def estadoInicial_def)
qed

lemma acumular_completo: "acumular (map (unoDe W) d) 0 (length d) ceros = histogramaDe W d"
proof (rule nth_equalityI)
  fix j
  assume "j < length (acumular (map (unoDe W) d) 0 (length d) ceros)"
  then have j: "j < CANTIDAD_RANGOS"
    by simp
  have "(\<Sum>v\<leftarrow>d. unoDe W v ! j) = (\<Sum>i = 0..<length d. map (\<lambda>v. unoDe W v ! j) d ! i)"
    using sum_list_sum_nth [of "map (\<lambda>v. unoDe W v ! j) d"] by simp
  also have "\<dots> = (\<Sum>i = 0..<length d. map (unoDe W) d ! i ! j)"
    by (rule sum.cong) simp_all
  finally show "acumular (map (unoDe W) d) 0 (length d) ceros ! j = histogramaDe W d ! j"
    using j by (simp add: histogramaDe_def)
qed (simp add: histogramaDe_def)

lemma prefijos_completo: "prefijos 0 CANTIDAD_RANGOS 0 h ceros = acumuladoDe h"
  by (intro nth_equalityI) (simp_all add: acumuladoDe_def)

lemma etapas_secuenciales:
  "escaneoSecuencial (reduccionSecuencial (s\<lparr>valoresMapeados := map (unoDe W) d\<rparr>))
   = s\<lparr>valoresMapeados := map (unoDe W) d, histograma := histogramaDe W d,
       histogramaAcumulado := acumuladoDe (histogramaDe W d)\<rparr>"
proof -
  let ?s1 = "s\<lparr>valoresMapeados := map (unoDe W) d\<rparr>"
  have "reduccionSecuencial ?s1 = ?s1\<lparr>histograma := histogramaDe W d\<rparr>"
    by (simp add: reduccionSecuencial_acumular acumular_completo)
  then show ?thesis
    by (simp add: escaneoSecuencial_forma prefijos_completo)
qed

lemma reduccion_paralela:
  assumes "length d = n"
  shows "parallel_reduce plan 0 n ceros (reduccionRango (map (unoDe W) d)) combinar ceros
         = histogramaDe W d"
  using assms acumular_completo [of W d] by (simp add: parallel_reduce_acumular)

lemma escaneo_paralelo:
  "snd (parallel_scan plan False 0 CANTIDAD_RANGOS 0 escaneoRango (+)
          (0, s\<lparr>histogramaAcumulado := ceros\<rparr>))
   = s\<lparr>histogramaAcumulado := acumuladoDe (histograma s)\<rparr>"
  by (simp add: parallel_scan_escaneo escaneoRango_forma prefijos_completo)

lemma formaTotal_casos:
  assumes "0 \<le> aInt (length entrada)" and "d = take (nat (aInt (length entrada))) entrada"
  shows "formaTotal W entrada =
     (if list_all (valido W) d
      then Inr \<lparr>datos = entrada, valoresMapeados = map (unoDe W) d,
                histograma = histogramaDe W d,
                histogramaAcumulado = acumuladoDe (histogramaDe W d)\<rparr>
      else Inl (fallo W))"
  using assms by (simp add: formaTotal_def formaCerrada_def resultadoDe_def)

lemma ejecutarSecuencial_forma: "ejecutarSecuencial entrada W = formaTotal W entrada"
proof (cases "aInt (length entrada) < 0")
  case True
  then show ?thesis
    by (simp add: ejecutarSecuencial_def formaTotal_def)
next
  case False
  define n where "n = nat (aInt (length entrada))"
  define d where "d = take n entrada"
  have n: "n \<le> length entrada"
    unfolding n_def by (rule aInt_cota)
  have forma: "formaTotal W entrada =
     (if list_all (valido W) d
      then Inr \<lparr>datos = entrada, valoresMapeados = map (unoDe W) d,
                histograma = histogramaDe W d,
                histogramaAcumulado = acumuladoDe (histogramaDe W d)\<rparr>
      else Inl (fallo W))"
    using False by (intro formaTotal_casos) (simp_all add: d_def n_def)
  have correr: "ejecutarSecuencial entrada W =
     (case mapeoForma W 0 n (estadoInicial entrada n) of
        Inl e \<Rightarrow> Inl e
      | Inr s \<Rightarrow> Inr (escaneoSecuencial (reduccionSecuencial s)))"
    using False unfolding n_def
    by (simp add: ejecutarSecuencial_def mapeoRango_forma Let_def)
  show ?thesis
  proof (cases "list_all (valido W) d")
    case False
    then show ?thesis
      unfolding correr forma mapeo_completo [OF n] d_def [symmetric] by simp
  next
    case True
    then show ?thesis
      unfolding correr forma mapeo_completo [OF n] d_def [symmetric]
      by (simp add: etapas_secuenciales) (simp add: estadoInicial_def)
  qed
qed

lemma ejecutarParalelo_forma: "ejecutarParalelo plan entrada W = formaTotal W entrada"
proof (cases "aInt (length entrada) < 0")
  case True
  then show ?thesis
    by (simp add: ejecutarParalelo_def formaTotal_def)
next
  case False
  define n where "n = nat (aInt (length entrada))"
  define d where "d = take n entrada"
  have n: "n \<le> length entrada"
    unfolding n_def by (rule aInt_cota)
  have len: "length d = n"
    using n by (simp add: d_def)
  have forma: "formaTotal W entrada =
     (if list_all (valido W) d
      then Inr \<lparr>datos = entrada, valoresMapeados = map (unoDe W) d,
                histograma = histogramaDe W d,
                histogramaAcumulado = acumuladoDe (histogramaDe W d)\<rparr>
      else Inl (fallo W))"
    using False by (intro formaTotal_casos) (simp_all add: d_def n_def)
  have correr: "ejecutarParalelo plan entrada W =
     (case mapeoForma W 0 n (estadoInicial entrada n) of
        Inl e \<Rightarrow> Inl e
      | Inr s1 \<Rightarrow>
          Inr (snd (parallel_scan (planEscaneo plan) False 0 CANTIDAD_RANGOS 0 escaneoRango (+)
                 (0, s1\<lparr>histograma :=
                          parallel_reduce (planReduccion plan) 0 n ceros
                            (reduccionRango (valoresMapeados s1)) combinar ceros,
                        histogramaAcumulado := ceros\<rparr>))))"
    using False unfolding n_def
    by (simp add: ejecutarParalelo_def parallel_for_forma Let_def cong: sum.case_cong)
  show ?thesis
  proof (cases "list_all (valido W) d")
    case False
    then show ?thesis
      unfolding correr forma mapeo_completo [OF n] d_def [symmetric] by simp
  next
    case True
    then show ?thesis
      unfolding correr forma mapeo_completo [OF n] d_def [symmetric]
      by (simp add: reduccion_paralela [OF len] escaneo_paralelo) (simp add: estadoInicial_def)
  qed
qed

lemma formaTotal_pequena:
  assumes "length entrada \<le> 2147483647"
  shows "formaTotal W entrada = formaCerrada W entrada"
proof -
  have "aInt (length entrada) = int (length entrada)"
    using assms by (rule aInt_pequeno)
  then show ?thesis
    by (simp add: formaTotal_def formaCerrada_def resultadoDe_def)
qed

lemma formaTotal_exito:
  assumes "formaTotal W entrada = Inr r"
  shows "\<exists>d. list_all (valido W) d \<and> r = (resultadoDe W d)\<lparr>datos := entrada\<rparr>"
  using assms by (auto simp: formaTotal_def formaCerrada_def split: if_splits)

lemma unoDe_casos:
  "(valido W v \<and> (\<exists>b<CANTIDAD_RANGOS. unoDe W v = ceros[b := 1])) \<or>
   (\<not> valido W v \<and> unoDe W v = ceros)"
proof (cases "calcularIndiceRango v W")
  case (Inl e)
  then show ?thesis
    by (simp add: valido_def unoDe_def mapearValor_def)
next
  case (Inr b)
  show ?thesis
  proof (cases "0 \<le> b \<and> b < int CANTIDAD_RANGOS")
    case True
    then have "nat b < CANTIDAD_RANGOS"
      by (simp add: nat_less_iff)
    then show ?thesis
      using Inr True by (auto simp: valido_def unoDe_def mapearValor_def)
  next
    case False
    then show ?thesis
      using Inr by (auto simp: valido_def unoDe_def mapearValor_def)
  qed
qed

lemma unoDe_no_negativo:
  assumes "j < CANTIDAD_RANGOS"
  shows "0 \<le> unoDe W v ! j"
  using unoDe_casos [of W v] assms by (auto simp: nth_list_update)

lemma unoDe_suma:
  assumes "valido W v"
  shows "(\<Sum>j = 0..<CANTIDAD_RANGOS. unoDe W v ! j) = 1"
proof -
  from unoDe_casos [of W v] assms obtain b
    where b: "b < CANTIDAD_RANGOS" and u: "unoDe W v = ceros[b := 1]"
    by auto
  have "(\<Sum>j = 0..<CANTIDAD_RANGOS. unoDe W v ! j)
      = (\<Sum>j \<in> {0..<CANTIDAD_RANGOS}. if b = j then 1 else 0)"
    unfolding u by (rule sum.cong) (auto simp: nth_list_update)
  also have "\<dots> = 1"
    using b by simp
  finally show ?thesis .
qed

lemma valido_no_negativo:
  assumes "1 \<le> W" and "0 \<le> v"
  shows "valido W v"
proof -
  have "\<exists>b. calcularIndiceRango v W = Inr b \<and> 0 \<le> b \<and> b < int CANTIDAD_RANGOS"
  proof (cases "v = 0")
    case True
    then show ?thesis
      using assms(1) by (simp add: clasificar_cero CANTIDAD_RANGOS_def)
  next
    case False
    then have "0 < v"
      using assms(2) by simp
    moreover have "0 \<le> (v - 1) div W"
      using assms \<open>0 < v\<close> by (simp add: pos_imp_zdiv_nonneg_iff)
    ultimately show ?thesis
      using assms(1) by (simp add: clasificar_positivo CANTIDAD_RANGOS_def)
  qed
  then show ?thesis
    by (auto simp: valido_def mapearValor_def)
qed

lemma length_histogramaDe [simp]: "length (histogramaDe W d) = CANTIDAD_RANGOS"
  by (simp add: histogramaDe_def)

lemma nth_histogramaDe [simp]:
  "j < CANTIDAD_RANGOS \<Longrightarrow> histogramaDe W d ! j = (\<Sum>v\<leftarrow>d. unoDe W v ! j)"
  by (simp add: histogramaDe_def)

lemma length_acumuladoDe [simp]: "length (acumuladoDe h) = CANTIDAD_RANGOS"
  by (simp add: acumuladoDe_def)

lemma nth_acumuladoDe [simp]:
  "i < CANTIDAD_RANGOS \<Longrightarrow> acumuladoDe h ! i = (\<Sum>k = 0..<Suc i. h ! k)"
  by (simp add: acumuladoDe_def)

lemma histogramaDe_no_negativo:
  assumes "j < CANTIDAD_RANGOS"
  shows "0 \<le> histogramaDe W d ! j"
proof -
  have "0 \<le> (\<Sum>v\<leftarrow>d. unoDe W v ! j)"
    using assms by (intro sum_list_nonneg) (auto simp: unoDe_no_negativo)
  then show ?thesis
    using assms by simp
qed

lemma suma_columnas:
  "(\<Sum>j = 0..<n. \<Sum>v\<leftarrow>d. g v j) = (\<Sum>v\<leftarrow>d. \<Sum>j = 0..<n. (g v j :: int))"
  by (induction d) (simp_all add: sum.distrib)

lemma histogramaDe_total:
  assumes "list_all (valido W) d"
  shows "sum_list (histogramaDe W d) = int (length d)"
proof -
  have "sum_list (histogramaDe W d) = (\<Sum>j = 0..<CANTIDAD_RANGOS. \<Sum>v\<leftarrow>d. unoDe W v ! j)"
    by (simp add: histogramaDe_def interv_sum_list_conv_sum_set_nat)
  also have "\<dots> = (\<Sum>v\<leftarrow>d. \<Sum>j = 0..<CANTIDAD_RANGOS. unoDe W v ! j)"
    by (rule suma_columnas)
  also have "\<dots> = (\<Sum>v\<leftarrow>d. 1)"
    using assms by (intro arg_cong [where f = sum_list] map_cong) (simp_all add: list_all_iff unoDe_suma)
  also have "\<dots> = int (length d)"
    by (simp add: sum_list_triv)
  finally show ?thesis .
qed

lemma acumuladoDe_ultimo:
  assumes "length h = CANTIDAD_RANGOS"
  shows "acumuladoDe h ! (CANTIDAD_RANGOS - 1) = sum_list h"
proof -
  have "CANTIDAD_RANGOS - 1 < CANTIDAD_RANGOS" and "Suc (CANTIDAD_RANGOS - 1) = CANTIDAD_RANGOS"
    by (simp_all add: CANTIDAD_RANGOS_def)
  then have "acumuladoDe h ! (CANTIDAD_RANGOS - 1) = (\<Sum>k = 0..<CANTIDAD_RANGOS. h ! k)"
    by (simp only: nth_acumuladoDe)
  then show ?thesis
    using assms by (simp add: sum_list_sum_nth)
qed

lemma formaCerrada_exito: "formaCerrada W d = Inr r \<Longrightarrow> list_all (valido W) d \<and> r = resultadoDe W d"
  by (auto simp: formaCerrada_def split: if_splits)

section \<open>Properties of the pipeline\<close>

lemma backends_iguales: "ejecutarParalelo plan entrada W = ejecutarSecuencial entrada W"
  by (simp add: ejecutarParalelo_forma ejecutarSecuencial_forma)

lemma ejecutarSecuencial_pequena:
  assumes "length entrada \<le> 2147483647"
  shows "ejecutarSecuencial entrada W = formaCerrada W entrada"
  using assms by (simp add: ejecutarSecuencial_forma formaTotal_pequena)

lemma entrada_valida:
  assumes "1 \<le> W" and "\<forall>x\<in>set entrada. 0 \<le> x"
  shows "list_all (valido W) entrada"
  using assms by (simp add: list_all_iff valido_no_negativo)

lemma TAMANO_RANGO_positivo: "1 \<le> V \<Longrightarrow> 1 \<le> TAMANO_RANGO V"
  unfolding TAMANO_RANGO_entero by presburger

text \<open>
  Claim C1. For every input whose values lie in \<open>[0, V]\<close>, with \<open>V \<ge> 1\<close> and the width
  \<open>\<lceil>V / B\<rceil>\<close>, the parallel backend does under every schedule of its three stages what
  the sequential backend does; and when the input has at most \<open>INT_MAX = 2147483647\<close>
  values (the count the program keeps in an \<open>int\<close>), the sequential backend returns a
  result and the parallel backend returns the same result (the same one-hot trace,
  histogram and cumulative histogram) under every schedule.
\<close>

theorem backends_coinciden:
  assumes "1 \<le> V" and "\<forall>x\<in>set entrada. 0 \<le> x \<and> x \<le> V"
  shows "(\<forall>plan. ejecutarParalelo plan entrada (TAMANO_RANGO V)
                  = ejecutarSecuencial entrada (TAMANO_RANGO V)) \<and>
         (length entrada \<le> 2147483647 \<longrightarrow>
            (\<exists>r. ejecutarSecuencial entrada (TAMANO_RANGO V) = Inr r \<and>
                 (\<forall>plan. ejecutarParalelo plan entrada (TAMANO_RANGO V) = Inr r)))"
proof (intro conjI impI allI)
  fix plan
  show "ejecutarParalelo plan entrada (TAMANO_RANGO V)
      = ejecutarSecuencial entrada (TAMANO_RANGO V)"
    by (rule backends_iguales)
next
  assume cota: "length entrada \<le> 2147483647"
  have "list_all (valido (TAMANO_RANGO V)) entrada"
    using assms by (intro entrada_valida TAMANO_RANGO_positivo) simp_all
  then have "ejecutarSecuencial entrada (TAMANO_RANGO V)
      = Inr (resultadoDe (TAMANO_RANGO V) entrada)"
    by (simp add: ejecutarSecuencial_pequena [OF cota] formaCerrada_def)
  then show "\<exists>r. ejecutarSecuencial entrada (TAMANO_RANGO V) = Inr r \<and>
      (\<forall>plan. ejecutarParalelo plan entrada (TAMANO_RANGO V) = Inr r)"
    by (simp add: backends_iguales)
qed

theorem backends_coinciden_witness:
  "ejecutarSecuencial [10, 40, 120] (TAMANO_RANGO 120) =
     Inr \<lparr>datos = [10, 40, 120],
          valoresMapeados = [[1, 0, 0, 0], [0, 1, 0, 0], [0, 0, 0, 1]],
          histograma = [1, 1, 0, 1], histogramaAcumulado = [1, 2, 2, 3]\<rparr> \<and>
   ejecutarParalelo
     \<lparr>planMapeo = Corte 1 True Hoja Hoja,
      planReduccion = Corte 2 True Hoja (Corte 1 False Hoja Hoja),
      planEscaneo = Corte 1 False Hoja (Corte 3 True Hoja Hoja)\<rparr>
     [10, 40, 120] (TAMANO_RANGO 120) =
     Inr \<lparr>datos = [10, 40, 120],
          valoresMapeados = [[1, 0, 0, 0], [0, 1, 0, 0], [0, 0, 0, 1]],
          histograma = [1, 1, 0, 1], histogramaAcumulado = [1, 2, 2, 3]\<rparr>"
proof -
  have v: "(1::int) \<le> 120"
    by simp
  have h: "\<forall>x\<in>set [10, 40, 120 :: int]. 0 \<le> x \<and> x \<le> 120"
    by simp
  have n: "length [10, 40, 120 :: int] \<le> 2147483647"
    by simp
  from backends_coinciden [OF v h, THEN conjunct2, THEN mp, OF n] obtain r
    where s: "ejecutarSecuencial [10, 40, 120] (TAMANO_RANGO 120) = Inr r"
      and p: "\<And>plan. ejecutarParalelo plan [10, 40, 120] (TAMANO_RANGO 120) = Inr r"
    by blast
  have "ejecutarSecuencial [10, 40, 120] (TAMANO_RANGO 120) =
     Inr \<lparr>datos = [10, 40, 120],
          valoresMapeados = [[1, 0, 0, 0], [0, 1, 0, 0], [0, 0, 0, 1]],
          histograma = [1, 1, 0, 1], histogramaAcumulado = [1, 2, 2, 3]\<rparr>"
    by code_simp
  with s p show ?thesis
    by simp
qed

text \<open>
  Claim C3. For every input of \<open>N \<le> INT_MAX = 2147483647\<close> values that are not negative
  (so for every such input in \<open>[0, V]\<close>) and every width \<open>W \<ge> 1\<close>, both backends return
  a result, under every schedule; the entries of its histogram add up to \<open>N\<close> and the
  last entry of its cumulative histogram is \<open>N\<close>.
\<close>

theorem suma_conservada:
  assumes "1 \<le> W" and "\<forall>x\<in>set entrada. 0 \<le> x"
    and "length entrada \<le> 2147483647"
  shows "\<exists>r. ejecutarSecuencial entrada W = Inr r \<and>
             (\<forall>plan. ejecutarParalelo plan entrada W = Inr r) \<and>
             sum_list (histograma r) = int (length entrada) \<and>
             histogramaAcumulado r ! (CANTIDAD_RANGOS - 1) = int (length entrada)"
proof -
  have v: "list_all (valido W) entrada"
    using assms(1,2) by (rule entrada_valida)
  then have s: "ejecutarSecuencial entrada W = Inr (resultadoDe W entrada)"
    by (simp add: ejecutarSecuencial_pequena [OF assms(3)] formaCerrada_def)
  have t: "sum_list (histograma (resultadoDe W entrada)) = int (length entrada)"
    using v by (simp add: resultadoDe_def histogramaDe_total)
  have "histogramaAcumulado (resultadoDe W entrada) ! (CANTIDAD_RANGOS - 1)
      = sum_list (histogramaDe W entrada)"
    using acumuladoDe_ultimo [of "histogramaDe W entrada"] by (simp add: resultadoDe_def)
  then have "histogramaAcumulado (resultadoDe W entrada) ! (CANTIDAD_RANGOS - 1)
      = int (length entrada)"
    using v by (simp add: histogramaDe_total)
  with s t show ?thesis
    by (simp add: backends_iguales)
qed

theorem suma_conservada_witness:
  "ejecutarSecuencial [1, 30, 31, 60, 61, 90, 91, 120] 30 =
     Inr \<lparr>datos = [1, 30, 31, 60, 61, 90, 91, 120],
          valoresMapeados =
            [[1, 0, 0, 0], [1, 0, 0, 0], [0, 1, 0, 0], [0, 1, 0, 0],
             [0, 0, 1, 0], [0, 0, 1, 0], [0, 0, 0, 1], [0, 0, 0, 1]],
          histograma = [2, 2, 2, 2], histogramaAcumulado = [2, 4, 6, 8]\<rparr> \<and>
   sum_list [2, 2, 2, 2 :: int] = int (length [1, 30, 31, 60, 61, 90, 91, 120 :: int]) \<and>
   [2, 4, 6, 8 :: int] ! (CANTIDAD_RANGOS - 1) = int (length [1, 30, 31, 60, 61, 90, 91, 120 :: int])"
proof -
  have w: "(1::int) \<le> 30"
    by simp
  have h: "\<forall>x\<in>set [1, 30, 31, 60, 61, 90, 91, 120 :: int]. 0 \<le> x"
    by simp
  have n: "length [1, 30, 31, 60, 61, 90, 91, 120 :: int] \<le> 2147483647"
    by simp
  from suma_conservada [OF w h n] obtain r
    where s: "ejecutarSecuencial [1, 30, 31, 60, 61, 90, 91, 120] 30 = Inr r"
      and t: "sum_list (histograma r) = int (length [1, 30, 31, 60, 61, 90, 91, 120 :: int])"
      and u: "histogramaAcumulado r ! (CANTIDAD_RANGOS - 1)
              = int (length [1, 30, 31, 60, 61, 90, 91, 120 :: int])"
    by blast
  have e: "ejecutarSecuencial [1, 30, 31, 60, 61, 90, 91, 120] 30 =
     Inr \<lparr>datos = [1, 30, 31, 60, 61, 90, 91, 120],
          valoresMapeados =
            [[1, 0, 0, 0], [1, 0, 0, 0], [0, 1, 0, 0], [0, 1, 0, 0],
             [0, 0, 1, 0], [0, 0, 1, 0], [0, 0, 0, 1], [0, 0, 0, 1]],
          histograma = [2, 2, 2, 2], histogramaAcumulado = [2, 4, 6, 8]\<rparr>"
    by code_simp
  from s e have "r = \<lparr>datos = [1, 30, 31, 60, 61, 90, 91, 120],
          valoresMapeados =
            [[1, 0, 0, 0], [1, 0, 0, 0], [0, 1, 0, 0], [0, 1, 0, 0],
             [0, 0, 1, 0], [0, 0, 1, 0], [0, 0, 0, 1], [0, 0, 0, 1]],
          histograma = [2, 2, 2, 2], histogramaAcumulado = [2, 4, 6, 8]\<rparr>"
    by simp
  with t u have "sum_list [2, 2, 2, 2 :: int] = int (length [1, 30, 31, 60, 61, 90, 91, 120 :: int])"
    and "[2, 4, 6, 8 :: int] ! (CANTIDAD_RANGOS - 1) = int (length [1, 30, 31, 60, 61, 90, 91, 120 :: int])"
    by simp_all
  with e show ?thesis
    by blast
qed

text \<open>
  Claim C6. Whenever a run returns, under either backend and any schedule, its cumulative
  histogram does not decrease: entry \<open>j - 1\<close> is at most entry \<open>j\<close> for \<open>0 < j < B\<close>.
\<close>

theorem acumulado_monotono:
  assumes "ejecutarSecuencial entrada W = Inr r \<or> ejecutarParalelo plan entrada W = Inr r"
    and "0 < j" and "j < CANTIDAD_RANGOS"
  shows "histogramaAcumulado r ! (j - 1) \<le> histogramaAcumulado r ! j"
proof -
  from assms(1) have "formaTotal W entrada = Inr r"
    by (simp add: ejecutarSecuencial_forma ejecutarParalelo_forma)
  then obtain d where r: "r = (resultadoDe W d)\<lparr>datos := entrada\<rparr>"
    using formaTotal_exito by blast
  let ?h = "histogramaDe W d"
  have "(\<Sum>k = 0..<Suc j. ?h ! k) = (\<Sum>k = 0..<j. ?h ! k) + ?h ! j"
    by simp
  moreover have "0 \<le> ?h ! j"
    using assms(3) by (rule histogramaDe_no_negativo)
  moreover have "Suc (j - 1) = j" and "j - 1 < CANTIDAD_RANGOS"
    using assms(2,3) by simp_all
  ultimately show ?thesis
    using assms(3) by (simp add: r resultadoDe_def)
qed

theorem acumulado_monotono_witness:
  "ejecutarSecuencial [10, 40, 120] 30 =
     Inr \<lparr>datos = [10, 40, 120],
          valoresMapeados = [[1, 0, 0, 0], [0, 1, 0, 0], [0, 0, 0, 1]],
          histograma = [1, 1, 0, 1], histogramaAcumulado = [1, 2, 2, 3]\<rparr> \<and>
   (0::nat) < 3 \<and> 3 < CANTIDAD_RANGOS \<and> [1, 2, 2, 3 :: int] ! (3 - 1) \<le> [1, 2, 2, 3] ! 3"
proof -
  have e: "ejecutarSecuencial [10, 40, 120] 30 =
     Inr \<lparr>datos = [10, 40, 120],
          valoresMapeados = [[1, 0, 0, 0], [0, 1, 0, 0], [0, 0, 0, 1]],
          histograma = [1, 1, 0, 1], histogramaAcumulado = [1, 2, 2, 3]\<rparr>"
    by code_simp
  have j: "(0::nat) < 3" "3 < CANTIDAD_RANGOS"
    by (simp_all add: CANTIDAD_RANGOS_def)
  from acumulado_monotono [OF disjI1 [OF e] j]
  have "[1, 2, 2, 3 :: int] ! (3 - 1) \<le> [1, 2, 2, 3] ! 3"
    by (simp only: estado.simps)
  with e j show ?thesis
    by blast
qed

lemma nada_valido_sin_ancho: "\<not> valido 0 v"
  by (simp add: valido_def mapearValor_def calcularIndiceRango_def dividir_def)

lemma resultado_vacio: "(resultadoDe W [])\<lparr>datos := entrada\<rparr> = estadoInicial entrada 0"
proof -
  have "histogramaDe W [] = ceros"
    by (intro nth_equalityI) simp_all
  moreover have "acumuladoDe ceros = ceros"
    by (intro nth_equalityI) simp_all
  ultimately show ?thesis
    by (simp add: resultadoDe_def estadoInicial_def)
qed

lemma formaCerrada_sin_ancho:
  "formaCerrada 0 d = (if d = [] then Inr (resultadoDe 0 []) else Inl DivisionPorCero)"
  by (cases d) (simp_all add: formaCerrada_def nada_valido_sin_ancho fallo_def)

lemma formaTotal_sin_ancho:
  "formaTotal 0 entrada =
     (if aInt (length entrada) < 0 then Inl VectorDemasiadoGrande
      else if aInt (length entrada) = 0 then Inr (estadoInicial entrada 0)
      else Inl DivisionPorCero)"
proof (cases "aInt (length entrada) < 0")
  case True
  then show ?thesis
    by (simp add: formaTotal_def)
next
  case False
  let ?n = "nat (aInt (length entrada))"
  have n: "?n \<le> length entrada"
    by (rule aInt_cota)
  show ?thesis
  proof (cases "aInt (length entrada) = 0")
    case True
    then show ?thesis
      by (simp add: formaTotal_def formaCerrada_sin_ancho resultado_vacio)
  next
    case positivo: False
    then have "0 < ?n"
      using False by simp
    then have "take ?n entrada \<noteq> []"
      using n by auto
    then show ?thesis
      using False positivo by (simp add: formaTotal_def formaCerrada_sin_ancho)
  qed
qed

lemma formaTotal_sin_ancho_pequena:
  assumes "length entrada \<le> 2147483647"
  shows "formaTotal 0 entrada =
     (if entrada = [] then Inr (estadoInicial [] 0) else Inl DivisionPorCero)"
  using assms resultado_vacio [where W = 0 and entrada = "[]"]
  by (simp add: formaTotal_pequena formaCerrada_sin_ancho resultadoDe_def)

text \<open>
  Claim C7, as stated, fails: nothing in the program checks the configuration. With the
  maximum \<open>V = 0\<close> the width is \<open>0\<close>, and the run on the empty input completes and returns
  the histograms of zeros; with \<open>V = -4\<close> the width is \<open>-1\<close>, and the run on the input
  \<open>[0]\<close> completes as well.
\<close>

theorem sin_validacion_counterexample:
  "TAMANO_RANGO 0 = 0 \<and>
   ejecutarSecuencial [] (TAMANO_RANGO 0) =
     Inr \<lparr>datos = [], valoresMapeados = [],
          histograma = [0, 0, 0, 0], histogramaAcumulado = [0, 0, 0, 0]\<rparr> \<and>
   TAMANO_RANGO (- 4) = - 1 \<and>
   ejecutarSecuencial [0] (TAMANO_RANGO (- 4)) =
     Inr \<lparr>datos = [0], valoresMapeados = [[1, 0, 0, 0]],
          histograma = [1, 0, 0, 0], histogramaAcumulado = [1, 1, 1, 1]\<rparr>"
  by code_simp

text \<open>
  Claim C7, amended. With the width \<open>W = 0\<close> a run on an input of at most
  \<open>INT_MAX = 2147483647\<close> values fails exactly when the input is not empty: the classifier
  divides by zero in the map stage, and no histogram is produced, in either backend and
  under any schedule. On the empty input both backends complete and return the
  histograms of zeros. For an input of any length the element count that the program
  keeps in its \<open>int\<close> decides: a negative count ends the run in the constructor of
  \<open>valoresMapeados\<close>, the count \<open>0\<close> completes with the histograms of zeros, a positive
  count reaches the division by zero.
\<close>

theorem ancho_cero:
  "ejecutarSecuencial entrada 0 =
     (if aInt (length entrada) < 0 then Inl VectorDemasiadoGrande
      else if aInt (length entrada) = 0 then Inr (estadoInicial entrada 0)
      else Inl DivisionPorCero) \<and>
   ejecutarParalelo plan entrada 0 =
     (if aInt (length entrada) < 0 then Inl VectorDemasiadoGrande
      else if aInt (length entrada) = 0 then Inr (estadoInicial entrada 0)
      else Inl DivisionPorCero) \<and>
   (length entrada \<le> 2147483647 \<longrightarrow>
      ejecutarSecuencial entrada 0 =
        (if entrada = [] then Inr (estadoInicial [] 0) else Inl DivisionPorCero) \<and>
      ejecutarParalelo plan entrada 0 =
        (if entrada = [] then Inr (estadoInicial [] 0) else Inl DivisionPorCero))"
  unfolding ejecutarSecuencial_forma ejecutarParalelo_forma
  using formaTotal_sin_ancho [of entrada] formaTotal_sin_ancho_pequena [of entrada]
  by blast

theorem ancho_cero_witness:
  "length [7, 3 :: int] \<le> 2147483647 \<and>
   ejecutarSecuencial [7, 3] 0 = Inl DivisionPorCero \<and>
   ejecutarParalelo
     \<lparr>planMapeo = Corte 1 True Hoja Hoja, planReduccion = Hoja, planEscaneo = Hoja\<rparr>
     [7, 3] 0 = Inl DivisionPorCero \<and>
   ejecutarSecuencial [] 0 =
     Inr \<lparr>datos = [], valoresMapeados = [],
          histograma = [0, 0, 0, 0], histogramaAcumulado = [0, 0, 0, 0]\<rparr>"
proof -
  have n: "length [7, 3 :: int] \<le> 2147483647"
    by simp
  have z: "aInt 0 = 0"
    by (simp add: aInt_def)
  have e: "estadoInicial [] 0 =
      \<lparr>datos = [], valoresMapeados = [],
       histograma = [0, 0, 0, 0], histogramaAcumulado = [0, 0, 0, 0]\<rparr>"
    by code_simp
  note t = ancho_cero [where entrada = "[7, 3]"
      and plan = "\<lparr>planMapeo = Corte 1 True Hoja Hoja, planReduccion = Hoja,
        planEscaneo = Hoja\<rparr>", THEN conjunct2, THEN conjunct2, THEN mp, OF n]
  have a: "ejecutarSecuencial [7, 3] 0 = Inl DivisionPorCero"
    using t [THEN conjunct1] by simp
  have b: "ejecutarParalelo
     \<lparr>planMapeo = Corte 1 True Hoja Hoja, planReduccion = Hoja, planEscaneo = Hoja\<rparr>
     [7, 3] 0 = Inl DivisionPorCero"
    using t [THEN conjunct2] by simp
  have c: "ejecutarSecuencial [] 0 =
     Inr \<lparr>datos = [], valoresMapeados = [],
          histograma = [0, 0, 0, 0], histogramaAcumulado = [0, 0, 0, 0]\<rparr>"
    using ancho_cero [where entrada = "[]", THEN conjunct1] by (simp add: z e)
  show ?thesis
    by (intro conjI) (rule n a b c)+
qed







lemma mapeoRango_datos: "mapeoRango W ini fin s = Inr s' \<Longrightarrow> datos s' = datos s"
  by (auto simp: mapeoRango_forma mapeoForma_def split: if_splits)

lemma parallel_for_datos:
  "parallel_for p ini fin (mapeoRango W) s = Inr s' \<Longrightarrow> datos s' = datos s"
proof (induction p arbitrary: ini fin s s')
  case Hoja
  then show ?case
    by (simp add: mapeoRango_datos)
next
  case (Corte k robado izq der)
  let ?m = "puntoDeCorte ini fin k"
  show ?case
  proof (cases robado)
    case True
    with Corte.prems obtain t
      where "parallel_for der ?m fin (mapeoRango W) s = Inr t"
        and "parallel_for izq ini ?m (mapeoRango W) t = Inr s'"
      by (auto simp: Let_def split: sum.splits)
    then show ?thesis
      using Corte.IH by metis
  next
    case False
    with Corte.prems obtain t
      where "parallel_for izq ini ?m (mapeoRango W) s = Inr t"
        and "parallel_for der ?m fin (mapeoRango W) t = Inr s'"
      by (auto simp: Let_def split: sum.splits)
    then show ?thesis
      using Corte.IH by metis
  qed
qed

text \<open>
  Claim C9. A run leaves the input as it found it: the input vector of the state a
  backend returns is the vector it was called with. And no stage writes what it reads:
  the map loop (alone or under \<open>parallel_for\<close>) keeps the input, the reduction keeps the
  input and the one-hot vectors, the scan (the sequential loop and the body of the
  parallel one, final pass or not) keeps the input, the one-hot vectors and the
  histogram.
\<close>

theorem entrada_intacta:
  "(ejecutarSecuencial entrada W = Inr r \<longrightarrow> datos r = entrada) \<and>
   (ejecutarParalelo plan entrada W = Inr r \<longrightarrow> datos r = entrada) \<and>
   (mapeoRango W ini fin s = Inr s' \<longrightarrow> datos s' = datos s) \<and>
   (parallel_for p ini fin (mapeoRango W) s = Inr s' \<longrightarrow> datos s' = datos s) \<and>
   datos (reduccionSecuencial s) = datos s \<and>
   valoresMapeados (reduccionSecuencial s) = valoresMapeados s \<and>
   datos (escaneoSecuencial s) = datos s \<and>
   valoresMapeados (escaneoSecuencial s) = valoresMapeados s \<and>
   histograma (escaneoSecuencial s) = histograma s \<and>
   datos (snd (escaneoRango ini fin suma esFinal s)) = datos s \<and>
   valoresMapeados (snd (escaneoRango ini fin suma esFinal s)) = valoresMapeados s \<and>
   histograma (snd (escaneoRango ini fin suma esFinal s)) = histograma s"
proof (intro conjI impI)
  assume "ejecutarSecuencial entrada W = Inr r"
  then have "formaTotal W entrada = Inr r"
    by (simp add: ejecutarSecuencial_forma)
  then show "datos r = entrada"
    by (auto dest: formaTotal_exito)
next
  assume "ejecutarParalelo plan entrada W = Inr r"
  then have "formaTotal W entrada = Inr r"
    by (simp add: ejecutarParalelo_forma)
  then show "datos r = entrada"
    by (auto dest: formaTotal_exito)
next
  assume "mapeoRango W ini fin s = Inr s'"
  then show "datos s' = datos s"
    by (rule mapeoRango_datos)
next
  assume "parallel_for p ini fin (mapeoRango W) s = Inr s'"
  then show "datos s' = datos s"
    by (rule parallel_for_datos)
qed (simp_all add: reduccionSecuencial_acumular escaneoSecuencial_forma escaneoRango_forma)

theorem entrada_intacta_witness:
  "ejecutarParalelo
     \<lparr>planMapeo = Corte 1 True Hoja Hoja,
      planReduccion = Corte 2 True Hoja (Corte 1 False Hoja Hoja),
      planEscaneo = Corte 1 False Hoja (Corte 3 True Hoja Hoja)\<rparr>
     [10, 40, 120] 30 =
     Inr \<lparr>datos = [10, 40, 120],
          valoresMapeados = [[1, 0, 0, 0], [0, 1, 0, 0], [0, 0, 0, 1]],
          histograma = [1, 1, 0, 1], histogramaAcumulado = [1, 2, 2, 3]\<rparr> \<and>
   datos \<lparr>datos = [10, 40, 120],
          valoresMapeados = [[1, 0, 0, 0], [0, 1, 0, 0], [0, 0, 0, 1]],
          histograma = [1, 1, 0, 1], histogramaAcumulado = [1, 2, 2, 3]\<rparr> = [10, 40, 120]"
proof -
  have e: "ejecutarParalelo
     \<lparr>planMapeo = Corte 1 True Hoja Hoja,
      planReduccion = Corte 2 True Hoja (Corte 1 False Hoja Hoja),
      planEscaneo = Corte 1 False Hoja (Corte 3 True Hoja Hoja)\<rparr>
     [10, 40, 120] 30 =
     Inr \<lparr>datos = [10, 40, 120],
          valoresMapeados = [[1, 0, 0, 0], [0, 1, 0, 0], [0, 0, 0, 1]],
          histograma = [1, 1, 0, 1], histogramaAcumulado = [1, 2, 2, 3]\<rparr>"
    by code_simp
  note t = entrada_intacta [where entrada = "[10, 40, 120]" and W = 30
      and plan = "\<lparr>planMapeo = Corte 1 True Hoja Hoja,
        planReduccion = Corte 2 True Hoja (Corte 1 False Hoja Hoja),
        planEscaneo = Corte 1 False Hoja (Corte 3 True Hoja Hoja)\<rparr>"]
  from t [THEN conjunct2, THEN conjunct1, THEN mp, OF e] e show ?thesis
    by (intro conjI)
qed

text \<open>
  Claim C10. On a sub-range \<open>[ini, fin)\<close> of the buckets and a seed \<open>suma\<close>, the body of
  the parallel scan returns the seed plus the histogram entries of the sub-range, final
  pass or not; a pass that is not final leaves every variable as it was; a final pass
  stores at each index \<open>i\<close> of the sub-range the seed plus the entries from \<open>ini\<close> to
  \<open>i\<close>, and nothing elsewhere. So \<open>parallel_scan\<close>, whatever the schedule, does what one
  final pass over the whole range does, and over all the buckets from seed \<open>0\<close> it
  yields the cumulative histogram of the sequential loop.
\<close>

theorem cuerpo_del_escaneo:
  assumes "ini \<le> fin" and "fin \<le> CANTIDAD_RANGOS"
    and "length (histogramaAcumulado s) = CANTIDAD_RANGOS"
  shows "fst (escaneoRango ini fin suma esFinal s) = suma + (\<Sum>k = ini..<fin. histograma s ! k) \<and>
         snd (escaneoRango ini fin suma False s) = s \<and>
         (\<forall>i<CANTIDAD_RANGOS.
            histogramaAcumulado (snd (escaneoRango ini fin suma True s)) ! i
            = (if ini \<le> i \<and> i < fin then suma + (\<Sum>k = ini..i. histograma s ! k)
               else histogramaAcumulado s ! i)) \<and>
         parallel_scan plan ajeno ini fin 0 escaneoRango (+) (suma, s)
           = escaneoRango ini fin suma True s \<and>
         snd (parallel_scan plan False 0 CANTIDAD_RANGOS 0 escaneoRango (+)
                (0, s\<lparr>histogramaAcumulado := ceros\<rparr>))
           = escaneoSecuencial s"
proof (intro conjI allI impI)
  show "fst (escaneoRango ini fin suma esFinal s) = suma + (\<Sum>k = ini..<fin. histograma s ! k)"
    by (simp add: escaneoRango_forma)
  show "snd (escaneoRango ini fin suma False s) = s"
    by (simp add: escaneoRango_forma)
  show "parallel_scan plan ajeno ini fin 0 escaneoRango (+) (suma, s)
      = escaneoRango ini fin suma True s"
    using assms(1) by (rule parallel_scan_escaneo)
  show "snd (parallel_scan plan False 0 CANTIDAD_RANGOS 0 escaneoRango (+)
                (0, s\<lparr>histogramaAcumulado := ceros\<rparr>))
      = escaneoSecuencial s"
    by (simp add: parallel_scan_escaneo escaneoRango_forma escaneoSecuencial_forma)
next
  fix i
  assume "i < CANTIDAD_RANGOS"
  then show "histogramaAcumulado (snd (escaneoRango ini fin suma True s)) ! i
      = (if ini \<le> i \<and> i < fin then suma + (\<Sum>k = ini..i. histograma s ! k)
         else histogramaAcumulado s ! i)"
    using assms(3) by (simp add: escaneoRango_forma atLeastLessThanSuc_atLeastAtMost)
qed

theorem cuerpo_del_escaneo_witness:
  "fst (escaneoRango 1 3 10 False
          \<lparr>datos = [], valoresMapeados = [], histograma = [1, 2, 3, 4],
           histogramaAcumulado = [0, 0, 0, 0]\<rparr>) = 15 \<and>
   snd (escaneoRango 1 3 10 False
          \<lparr>datos = [], valoresMapeados = [], histograma = [1, 2, 3, 4],
           histogramaAcumulado = [0, 0, 0, 0]\<rparr>)
     = \<lparr>datos = [], valoresMapeados = [], histograma = [1, 2, 3, 4],
        histogramaAcumulado = [0, 0, 0, 0]\<rparr> \<and>
   histogramaAcumulado (snd (escaneoRango 1 3 10 True
          \<lparr>datos = [], valoresMapeados = [], histograma = [1, 2, 3, 4],
           histogramaAcumulado = [0, 0, 0, 0]\<rparr>)) ! 2 = 15 \<and>
   parallel_scan (Corte 2 True Hoja Hoja) False 1 3 0 escaneoRango (+)
      (10, \<lparr>datos = [], valoresMapeados = [], histograma = [1, 2, 3, 4],
            histogramaAcumulado = [0, 0, 0, 0]\<rparr>)
     = (15, \<lparr>datos = [], valoresMapeados = [], histograma = [1, 2, 3, 4],
             histogramaAcumulado = [0, 12, 15, 0]\<rparr>)"
proof -
  let ?s = "\<lparr>datos = [], valoresMapeados = [], histograma = [1, 2, 3, 4],
           histogramaAcumulado = [0, 0, 0, 0]\<rparr>"
  have h: "(1::nat) \<le> 3" "3 \<le> CANTIDAD_RANGOS" "length (histogramaAcumulado ?s) = CANTIDAD_RANGOS"
    by (simp_all add: CANTIDAD_RANGOS_def)
  have i: "2 < CANTIDAD_RANGOS"
    by (simp add: CANTIDAD_RANGOS_def)
  have f: "escaneoRango 1 3 10 True ?s
      = (15, \<lparr>datos = [], valoresMapeados = [], histograma = [1, 2, 3, 4],
             histogramaAcumulado = [0, 12, 15, 0]\<rparr>)"
    by code_simp
  note t = cuerpo_del_escaneo [OF h, where suma = 10 and plan = "Corte 2 True Hoja Hoja"
      and ajeno = False]
  have g: "(\<Sum>k = 1..<3. [1, 2, 3, 4 :: int] ! k) = 5"
    by code_simp
  have "fst (escaneoRango 1 3 10 False ?s) = 10 + (\<Sum>k = 1..<3. [1, 2, 3, 4 :: int] ! k)"
    using t [where esFinal = False, THEN conjunct1] by (simp only: estado.simps)
  then have a: "fst (escaneoRango 1 3 10 False ?s) = 15"
    unfolding g by simp
  have b: "snd (escaneoRango 1 3 10 False ?s) = ?s"
    using t [THEN conjunct2, THEN conjunct1] .
  have g': "(\<Sum>k = 1..2. [1, 2, 3, 4 :: int] ! k) = 5"
    by code_simp
  have "histogramaAcumulado (snd (escaneoRango 1 3 10 True ?s)) ! 2
      = (if (1::nat) \<le> 2 \<and> (2::nat) < 3 then 10 + (\<Sum>k = 1..2. [1, 2, 3, 4 :: int] ! k)
         else [0, 0, 0, 0] ! 2)"
    using t [THEN conjunct2, THEN conjunct2, THEN conjunct1, THEN spec, THEN mp, OF i]
    by (simp only: estado.simps)
  then have c: "histogramaAcumulado (snd (escaneoRango 1 3 10 True ?s)) ! 2 = 15"
    unfolding g' by simp
  have d: "parallel_scan (Corte 2 True Hoja Hoja) False 1 3 0 escaneoRango (+) (10, ?s)
      = (15, \<lparr>datos = [], valoresMapeados = [], histograma = [1, 2, 3, 4],
             histogramaAcumulado = [0, 12, 15, 0]\<rparr>)"
    using t [THEN conjunct2, THEN conjunct2, THEN conjunct2, THEN conjunct1]
    by (simp only: f)
  show ?thesis
    by (intro conjI) (rule a b c d)+
qed

end
